theory Spec2Isabelle
  imports Main "HOL-Library.Char_ord" "HOL-Library.List_Lexorder"
    "HOL-Library.Product_Lexorder" "HOL-Library.Sublist" "HOL-Library.Multiset"
begin

section \<open>Strings and formatting\<close>

text \<open>
  Go strings are byte sequences; they are modelled as \<open>string\<close> (a list of 8-bit
  characters). \<open>nl\<close> is the one-byte string written \<^verbatim>\<open>"\n"\<close> in the source.
\<close>

definition nl :: string where
  "nl = [CHR 0x0A]"

definition digit :: "nat \<Rightarrow> char" where
  "digit n = char_of (48 + n)"

text \<open>The verb \<^verbatim>\<open>%d\<close> of \<^verbatim>\<open>fmt.Sprintf\<close>: decimal digits, a minus sign for a negative value.\<close>

fun show_nat :: "nat \<Rightarrow> string" where
  "show_nat n = (if n < 10 then [digit n] else show_nat (n div 10) @ [digit (n mod 10)])"

declare show_nat.simps [simp del]

definition show_int :: "int \<Rightarrow> string" where
  "show_int i = (if i < 0 then CHR ''-'' # show_nat (nat (- i)) else show_nat (nat i))"

text \<open>\<^verbatim>\<open>strings.Join(elems, sep)\<close>.\<close>

fun Join :: "string list \<Rightarrow> string \<Rightarrow> string" where
  "Join [] sep = []"
| "Join [x] sep = x"
| "Join (x # y # ys) sep = x @ sep @ Join (y # ys) sep"

section \<open>Instants and durations\<close>

text \<open>
  A \<^verbatim>\<open>time.Time\<close> is modelled by its position on one time line, in nanoseconds after
  the zero instant; the zero value of the type (a variable declared and never assigned)
  is \<open>0\<close>. A \<^verbatim>\<open>time.Duration\<close> is a signed 64-bit count of nanoseconds:
  \<^verbatim>\<open>Time.Sub\<close> saturates at the least and the greatest duration, and the division
  of a duration by \<^verbatim>\<open>time.Millisecond\<close> is Go's integer division, which truncates
  towards zero.
\<close>

type_synonym time = int

definition IsZero :: "time \<Rightarrow> bool" where
  "IsZero t = (t = 0)"

definition minDuration :: int where
  "minDuration = - (2 ^ 63)"

definition maxDuration :: int where
  "maxDuration = 2 ^ 63 - 1"

definition Sub :: "time \<Rightarrow> time \<Rightarrow> int" where
  "Sub t u =
     (let d = t - u
      in if d < minDuration then minDuration else if maxDuration < d then maxDuration else d)"

definition Millisecond :: int where
  "Millisecond = 1000000"

definition quot :: "int \<Rightarrow> int \<Rightarrow> int" where
  "quot a b = (if (a < 0) = (b < 0) then \<bar>a\<bar> div \<bar>b\<bar> else - (\<bar>a\<bar> div \<bar>b\<bar>))"

text \<open>The closures \<^verbatim>\<open>fmta\<close> and \<^verbatim>\<open>fmtb\<close> of \<^verbatim>\<open>visit\<close> (their bodies are the same).\<close>

definition fmta :: "int \<Rightarrow> string" where
  "fmta d = show_int (quot d Millisecond) @ ''ms''"

definition fmtb :: "int \<Rightarrow> string" where
  "fmtb d = show_int (quot d Millisecond) @ ''ms''"

section \<open>The Response log\<close>

text \<open>
  The struct \<^verbatim>\<open>Response\<close>. The counter has the Go type \<^verbatim>\<open>int\<close> (64 bits); it is
  modelled as an integer without bound, as is \<^verbatim>\<open>MaxRedirects\<close>: the counter grows by
  one for each attempt, so that it stays far from the greatest \<^verbatim>\<open>int\<close>.
\<close>

record Response =
  Log :: "string list"
  redirectsFollowed :: int

text \<open>\<^verbatim>\<open>Response.report\<close>, applied to the string that \<^verbatim>\<open>fmt.Sprintf\<close> has produced.\<close>

definition report :: "string \<Rightarrow> Response \<Rightarrow> Response" where
  "report line w = w\<lparr>Log := Log w @ [line]\<rparr>"

text \<open>\<^verbatim>\<open>Response.String\<close>\<close>

definition String :: "Response \<Rightarrow> string" where
  "String w = Join (Log w) nl"

section \<open>Requests\<close>

text \<open>
  A parsed \<^verbatim>\<open>url.URL\<close>: its scheme, its host (with the port, when there is one) and
  the rest of it (user information, path, query, fragment) as one opaque string.
\<close>

record URL =
  url_Scheme :: string
  url_Host :: string
  url_Rest :: string

record Request =
  URL :: URL
  HTTPHeaders :: "string list"
  HTTPMethod :: string
  PostBody :: string
  ClientCertFile :: string
  FollowRedirects :: bool
  OnlyHeader :: bool
  Insecure :: bool
  ShowVersion :: bool
  MaxRedirects :: int

text \<open>
  An \<^verbatim>\<open>http.Header\<close> is a Go map from header names to their values. It is modelled
  as an association list with one entry per name: the order of the entries stands for
  the order in which \<^verbatim>\<open>range\<close> happens to enumerate the map.
\<close>

type_synonym Header = "(string \<times> string list) list"

text \<open>The wire request, \<^verbatim>\<open>http.Request\<close>. A body of \<open>None\<close> is a nil reader.\<close>

record http_Request =
  Method :: string
  req_URL :: URL
  req_Header :: Header
  Body :: "string option"
  Host :: string

text \<open>The response, \<^verbatim>\<open>http.Response\<close>, with the fields that \<^verbatim>\<open>visit\<close> reads.\<close>

record http_Response =
  ProtoMajor :: int
  ProtoMinor :: int
  Status :: string
  StatusCode :: int
  resp_Header :: Header

text \<open>
  What \<^verbatim>\<open>visit\<close> and \<^verbatim>\<open>cook\<close> call and the sources do not define, taken as
  parameters: the helpers \<^verbatim>\<open>headerKeyValue\<close>, \<^verbatim>\<open>readClientCert\<close> (which may
  abort with a message) and \<^verbatim>\<open>isRedirect\<close> of this package, and from the standard
  library the canonical form of a header name, the quoting of \<^verbatim>\<open>%q\<close> and the
  resolution of a reference against a URL (\<^verbatim>\<open>URL.Parse\<close>), which may fail.
\<close>

record ext =
  headerKeyValue :: "string \<Rightarrow> string \<times> string"
  CanonicalMIMEHeaderKey :: "string \<Rightarrow> string"
  Quote :: "string \<Rightarrow> string"
  readClientCert :: "string \<Rightarrow> string + string list"
  isRedirect :: "http_Response \<Rightarrow> bool"
  URL_Parse :: "URL \<Rightarrow> string \<Rightarrow> string + URL"

subsection \<open>\<^verbatim>\<open>http.NewRequest\<close>\<close>

text \<open>
  The token characters of a method name: letters, digits and
  \<^verbatim>\<open>! # $ % & ' * + - . ^ _ ` | ~\<close>.
\<close>

definition isTokenByte :: "char \<Rightarrow> bool" where
  "isTokenByte c =
     (let n = (of_char c :: nat)
      in (48 \<le> n \<and> n \<le> 57) \<or> (65 \<le> n \<and> n \<le> 90) \<or> (97 \<le> n \<and> n \<le> 122)
         \<or> n \<in> {33, 35, 36, 37, 38, 39, 42, 43, 45, 46, 94, 95, 96, 124, 126})"

definition validMethod :: "string \<Rightarrow> bool" where
  "validMethod m = (m \<noteq> [] \<and> list_all isTokenByte m)"

definition removeEmptyPort :: "string \<Rightarrow> string" where
  "removeEmptyPort h = (if h \<noteq> [] \<and> last h = CHR '':'' then butlast h else h)"

text \<open>
  \<^verbatim>\<open>http.NewRequest(method, url, body)\<close>. An empty method means GET, a method that is not
  a token is refused. \<^verbatim>\<open>cook\<close> passes the text of a URL that was parsed before, and
  the model takes the parse of that text to give the same URL back; the host loses an
  empty port.
\<close>

definition NewRequest :: "ext \<Rightarrow> string \<Rightarrow> URL \<Rightarrow> string option \<Rightarrow> string + http_Request" where
  "NewRequest X method u body =
     (let m = (if method = [] then ''GET'' else method)
      in if \<not> validMethod m then Inl (''net/http: invalid method '' @ Quote X m)
         else Inr \<lparr>Method = m,
                   req_URL = u\<lparr>url_Host := removeEmptyPort (url_Host u)\<rparr>,
                   req_Header = [],
                   Body = body,
                   Host = removeEmptyPort (url_Host u)\<rparr>)"

subsection \<open>\<^verbatim>\<open>Header.Add\<close> and \<^verbatim>\<open>Header.Get\<close>\<close>

fun append_value :: "Header \<Rightarrow> string \<Rightarrow> string \<Rightarrow> Header" where
  "append_value [] k v = [(k, [v])]"
| "append_value ((k', vs) # h) k v =
     (if k' = k then (k', vs @ [v]) # h else (k', vs) # append_value h k v)"

definition Header_Add :: "ext \<Rightarrow> Header \<Rightarrow> string \<Rightarrow> string \<Rightarrow> Header" where
  "Header_Add X h k v = append_value h (CanonicalMIMEHeaderKey X k) v"

text \<open>The index expression \<^verbatim>\<open>h[k]\<close>: the values of \<open>k\<close>, none when the map has no \<open>k\<close>.\<close>

definition values_of :: "Header \<Rightarrow> string \<Rightarrow> string list" where
  "values_of h k = (case map_of h k of None \<Rightarrow> [] | Some vs \<Rightarrow> vs)"

text \<open>\<^verbatim>\<open>h.Get(k)\<close> for a name \<open>k\<close> that is in canonical form already.\<close>

definition Header_Get :: "Header \<Rightarrow> string \<Rightarrow> string" where
  "Header_Get h k = (case values_of h k of [] \<Rightarrow> [] | v # _ \<Rightarrow> v)"

subsection \<open>\<^verbatim>\<open>cook\<close>\<close>

text \<open>
  \<^verbatim>\<open>strings.EqualFold(k, "host")\<close>. The comparison is by Unicode simple case folding,
  rune by rune: besides the two cases of each ASCII letter, the long s (U+017F, the
  bytes C5 BF in UTF-8) folds to s.
\<close>

definition EqualFold_host :: "string \<Rightarrow> bool" where
  "EqualFold_host k =
     (k \<in> set [a # b # c @ [d].
                a \<leftarrow> ''hH'', b \<leftarrow> ''oO'', c \<leftarrow> [''s'', ''S'', [CHR 0xC5, CHR 0xBF]], d \<leftarrow> ''tT''])"

definition createBody :: "string \<Rightarrow> string option" where
  "createBody body = Some body"

text \<open>One round of the loop over \<^verbatim>\<open>r.HTTPHeaders\<close>, and the loop.\<close>

definition set_header :: "ext \<Rightarrow> string \<Rightarrow> http_Request \<Rightarrow> http_Request" where
  "set_header X h req =
     (case headerKeyValue X h of (k, v) \<Rightarrow>
        if EqualFold_host k then req\<lparr>Host := v\<rparr>
        else req\<lparr>req_Header := Header_Add X (req_Header req) k v\<rparr>)"

fun set_headers :: "ext \<Rightarrow> string list \<Rightarrow> http_Request \<Rightarrow> http_Request" where
  "set_headers X [] req = req"
| "set_headers X (h # hs) req = set_headers X hs (set_header X h req)"

text \<open>
  Modelled from the spec: \<^verbatim>\<open>makePanic\<close>, which the sources call and do not define. It
  formats its message and aborts the trace (section 7 of the specification: a fatal
  error aborts the entire trace immediately and carries a message with the offending
  value). A function of the model that can abort returns \<open>Inl\<close> of the message.
\<close>

definition makePanic :: "string \<Rightarrow> string + 'a" where
  "makePanic msg = Inl msg"

definition cook :: "ext \<Rightarrow> Request \<Rightarrow> string + http_Request" where
  "cook X r =
     (case NewRequest X (HTTPMethod r) (URL r) (createBody (PostBody r)) of
        Inl err \<Rightarrow> makePanic (''Unable to create request: '' @ err)
      | Inr req \<Rightarrow> Inr (set_headers X (HTTPHeaders r) req))"

section \<open>The transport\<close>

definition IndexByte :: "string \<Rightarrow> char \<Rightarrow> nat option" where
  "IndexByte s c = (if c \<in> set s then Some (length (takeWhile (\<lambda>x. x \<noteq> c) s)) else None)"

definition LastIndexByte :: "string \<Rightarrow> char \<Rightarrow> nat option" where
  "LastIndexByte s c =
     (if c \<in> set s then Some (length s - 1 - length (takeWhile (\<lambda>x. x \<noteq> c) (rev s))) else None)"

text \<open>
  \<^verbatim>\<open>net.SplitHostPort\<close> of the standard library, branch by branch; the error is
  modelled by its reason. \<open>split_tail\<close> is the end of the function, after the host has
  been found: \<open>j\<close> and \<open>k\<close> are the positions from which no further bracket may occur,
  \<open>i\<close> is the position of the last colon.
\<close>

definition split_tail :: "string \<Rightarrow> string \<Rightarrow> nat \<Rightarrow> nat \<Rightarrow> nat \<Rightarrow> string + string \<times> string" where
  "split_tail hostport host i j k =
     (if CHR ''['' \<in> set (drop j hostport) then Inl ''unexpected '[' in address''
      else if CHR '']'' \<in> set (drop k hostport) then Inl ''unexpected ']' in address''
      else Inr (host, drop (i + 1) hostport))"

definition SplitHostPort :: "string \<Rightarrow> string + string \<times> string" where
  "SplitHostPort hostport =
     (case LastIndexByte hostport (CHR '':'') of
        None \<Rightarrow> Inl ''missing port in address''
      | Some i \<Rightarrow>
          if hostport ! 0 = CHR ''['' then
            (case IndexByte hostport (CHR '']'') of
               None \<Rightarrow> Inl ''missing ']' in address''
             | Some e \<Rightarrow>
                 if e + 1 = length hostport then Inl ''missing port in address''
                 else if e + 1 = i then split_tail hostport (take (e - 1) (drop 1 hostport)) i 1 (e + 1)
                 else if hostport ! (e + 1) = CHR '':'' then Inl ''too many colons in address''
                 else Inl ''missing port in address'')
          else
            (let host = take i hostport
             in if CHR '':'' \<in> set host then Inl ''too many colons in address''
                else split_tail hostport host i 0 0))"

record tls_Config =
  ServerName :: string
  InsecureSkipVerify :: bool
  Certificates :: "string list"

text \<open>
  The \<^verbatim>\<open>https\<close> case of the switch on the scheme. \<open>h2\<close> is what
  \<^verbatim>\<open>http2.ConfigureTransport\<close> returns for the new transport: \<open>None\<close>, or its error.
  Any other scheme leaves the transport without a TLS configuration.
\<close>

definition server_name :: "http_Request \<Rightarrow> string" where
  "server_name req =
     (case SplitHostPort (Host req) of Inl err \<Rightarrow> Host req | Inr (host, port) \<Rightarrow> host)"

definition transport :: "ext \<Rightarrow> Request \<Rightarrow> http_Request \<Rightarrow> string option \<Rightarrow> string + tls_Config option" where
  "transport X r req h2 =
     (if url_Scheme (URL r) = ''https'' then
        (case readClientCert X (ClientCertFile r) of
           Inl msg \<Rightarrow> makePanic msg
         | Inr certs \<Rightarrow>
             (case h2 of
                Some err \<Rightarrow> makePanic (''Failed to prepare transport for HTTP/2: '' @ err)
              | None \<Rightarrow>
                  Inr (Some \<lparr>ServerName = server_name req,
                             InsecureSkipVerify = Insecure r,
                             Certificates = certs\<rparr>)))
      else Inr None)"

section \<open>One attempt\<close>

subsection \<open>The lifecycle hooks\<close>

text \<open>
  What the HTTP client does during \<^verbatim>\<open>client.Do\<close> is observed through the hooks of
  the \<^verbatim>\<open>httptrace.ClientTrace\<close>. An event is one call of a hook; it carries the
  arguments the hook looks at and the instant that \<^verbatim>\<open>time.Now()\<close> returns in it.
  The client can call a hook from a goroutine of its own (a connection is dialled in
  one); here the calls are taken one after the other, in the order of the list, and a
  panic in a hook ends the attempt with the Response as that hook found it. What a
  panic raised outside the goroutine of \<^verbatim>\<open>visit\<close> does to the process is not modelled.
\<close>

datatype event =
    DNSStart time
  | DNSDone time
  | ConnectStart time
  | ConnectDone string "string option" time
  | GotConn time
  | GotFirstResponseByte time

text \<open>The local variables \<^verbatim>\<open>t0\<close> to \<^verbatim>\<open>t4\<close> of \<^verbatim>\<open>visit\<close>, zero when declared.\<close>

record marks =
  t0 :: time
  t1 :: time
  t2 :: time
  t3 :: time
  t4 :: time

definition zero_marks :: marks where
  "zero_marks = \<lparr>t0 = 0, t1 = 0, t2 = 0, t3 = 0, t4 = 0\<rparr>"

text \<open>
  The six closures of the trace. A function that changes the Response returns its
  result together with the Response as it is when the function ends, also when it
  ends by a panic.
\<close>

fun hook :: "event \<Rightarrow> marks \<Rightarrow> Response \<Rightarrow> (string + marks) \<times> Response" where
  "hook (DNSStart now) m w = (Inr (m\<lparr>t0 := now\<rparr>), w)"
| "hook (DNSDone now) m w = (Inr (m\<lparr>t1 := now\<rparr>), w)"
| "hook (ConnectStart now) m w = (Inr (if IsZero (t1 m) then m\<lparr>t1 := now\<rparr> else m), w)"
| "hook (ConnectDone addr err now) m w =
     (case err of
        Some e \<Rightarrow> (makePanic (''Unable to connect to host '' @ addr @ '': '' @ e), w)
      | None \<Rightarrow> (Inr (m\<lparr>t2 := now\<rparr>), report (''Connected to '' @ addr @ nl) w))"
| "hook (GotConn now) m w = (Inr (m\<lparr>t3 := now\<rparr>), w)"
| "hook (GotFirstResponseByte now) m w = (Inr (m\<lparr>t4 := now\<rparr>), w)"

fun hooks :: "event list \<Rightarrow> marks \<Rightarrow> Response \<Rightarrow> (string + marks) \<times> Response" where
  "hooks [] m w = (Inr m, w)"
| "hooks (e # es) m w =
     (case hook e m w of
        (Inl msg, w') \<Rightarrow> (Inl msg, w')
      | (Inr m', w') \<Rightarrow> hooks es m' w')"

subsection \<open>The order of the header names\<close>

definition lower :: "char \<Rightarrow> char" where
  "lower c =
     (let n = (of_char c :: nat) in if 65 \<le> n \<and> n \<le> 90 then char_of (n + 32) else c)"

text \<open>
  Modelled from the spec: the key that the order of the type \<^verbatim>\<open>Headers\<close> compares.
  The sources use the type in \<^verbatim>\<open>sort.Sort(Headers(names))\<close> and do not declare it.
  Section 4.4 of the specification: the sort of the header names is case-insensitive
  lexical, ties broken by the byte order of the names as they are written.
\<close>

definition fold_key :: "string \<Rightarrow> string \<times> string" where
  "fold_key k = (map lower k, k)"

text \<open>
  Modelled from the spec: the method \<^verbatim>\<open>Less\<close> of the type \<^verbatim>\<open>Headers\<close>, on two
  names: the lexicographic order of the keys (lists and characters in byte order).
\<close>

definition Headers_Less :: "string \<Rightarrow> string \<Rightarrow> bool" where
  "Headers_Less a b = (fold_key a < fold_key b)"

text \<open>
  \<^verbatim>\<open>sort.Sort\<close> returns the names in ascending order of \<^verbatim>\<open>Less\<close>. The order is
  total and the names of a map are distinct, so there is one such arrangement.
\<close>

definition sort_Headers :: "string list \<Rightarrow> string list" where
  "sort_Headers names = sort_key fold_key names"

subsection \<open>The report of an attempt\<close>

definition status_line :: "http_Response \<Rightarrow> string" where
  "status_line resp =
     ''HTTP/'' @ show_int (ProtoMajor resp) @ ''.'' @ show_int (ProtoMinor resp) @ '' '' @ Status resp"

definition header_line :: "http_Response \<Rightarrow> string \<Rightarrow> string" where
  "header_line resp k = k @ '': '' @ Join (values_of (resp_Header resp) k) '',''"

definition header_names :: "http_Response \<Rightarrow> string list" where
  "header_names resp = map fst (resp_Header resp)"

fun report_headers :: "http_Response \<Rightarrow> string list \<Rightarrow> Response \<Rightarrow> Response" where
  "report_headers resp [] w = w"
| "report_headers resp (k # ks) w = report_headers resp ks (report (header_line resp k) w)"

text \<open>\<^verbatim>\<open>if t0.IsZero() { t0 = t1 }\<close>\<close>

definition backfill :: "marks \<Rightarrow> marks" where
  "backfill m = (if IsZero (t0 m) then m\<lparr>t0 := t1 m\<rparr> else m)"

text \<open>
  The statements that print: the status line, the headers, the message about the
  body, the durations. \<open>m\<close> holds the marks after the backfill, \<open>t5\<close> is the instant
  taken after the body was read.
\<close>

definition print_report :: "http_Response \<Rightarrow> string \<Rightarrow> marks \<Rightarrow> time \<Rightarrow> Response \<Rightarrow> Response" where
  "print_report resp bodyMsg m t5 w =
     (let w = report (status_line resp) w;
          w = report_headers resp (sort_Headers (header_names resp)) w;
          w = (if bodyMsg \<noteq> [] then report bodyMsg w else w);
          w = report (''DNS lookup: '' @ fmta (Sub (t1 m) (t0 m))) w;
          w = report (''TCP connection: '' @ fmta (Sub (t2 m) (t1 m))) w;
          w = report (''TLS handshake: '' @ fmta (Sub (t3 m) (t2 m))) w;
          w = report (''Server processing: '' @ fmta (Sub (t4 m) (t3 m))) w;
          w = report (''Content transfer: '' @ fmta (Sub t5 (t4 m))) w
      in report (nl @ ''Total: '' @ fmtb (Sub t5 (t0 m))) w)"

subsection \<open>Redirects\<close>

datatype location_error = ErrNoLocation | ParseError string

text \<open>
  \<^verbatim>\<open>Response.Location\<close>: the first value of the Location header, resolved against
  the URL of the request that was sent; \<^verbatim>\<open>ErrNoLocation\<close> when that value is empty
  or the header is not there.
\<close>

definition Location :: "ext \<Rightarrow> http_Request \<Rightarrow> http_Response \<Rightarrow> location_error + URL" where
  "Location X req resp =
     (let lv = Header_Get (resp_Header resp) ''Location''
      in if lv = [] then Inl ErrNoLocation
         else (case URL_Parse X (req_URL req) lv of Inl err \<Rightarrow> Inl (ParseError err) | Inr u \<Rightarrow> Inr u))"

text \<open>How the body of \<^verbatim>\<open>visit\<close> ends when it does not panic: it returns, or it calls itself.\<close>

datatype continuation = Stop | Follow URL

text \<open>The last statement of \<^verbatim>\<open>visit\<close>, up to the recursive call.\<close>

definition redirect ::
  "ext \<Rightarrow> Request \<Rightarrow> http_Request \<Rightarrow> http_Response \<Rightarrow> Response \<Rightarrow> (string + continuation) \<times> Response" where
  "redirect X r req resp w =
     (if FollowRedirects r \<and> isRedirect X resp then
        (case Location X req resp of
           Inl ErrNoLocation \<Rightarrow> (Inr Stop, w)
         | Inl (ParseError err) \<Rightarrow> (makePanic (''Unable to follow redirect: '' @ err), w)
         | Inr loc \<Rightarrow>
             (let w = w\<lparr>redirectsFollowed := redirectsFollowed w + 1\<rparr>
              in if redirectsFollowed w > MaxRedirects r then
                   (makePanic (''Maximum number of redirects ('' @ show_int (MaxRedirects r) @ '') followed''), w)
                 else (Inr (Follow loc), report nl w)))
      else (Inr Stop, w))"

subsection \<open>The body of \<^verbatim>\<open>visit\<close>\<close>

text \<open>
  What the world outside does in one attempt: what \<^verbatim>\<open>http2.ConfigureTransport\<close>
  returns (asked for https only), the events during \<^verbatim>\<open>client.Do\<close> in the order in
  which the hooks run, what \<^verbatim>\<open>client.Do\<close> returns (an error or the response), the
  message of \<^verbatim>\<open>readResponseBody\<close>, and the instant \<^verbatim>\<open>t5\<close> taken after it.
\<close>

record attempt =
  h2_error :: "string option"
  events :: "event list"
  Do :: "string + http_Response"
  bodyMsg :: string
  t5 :: time

definition hop :: "ext \<Rightarrow> Request \<Rightarrow> attempt \<Rightarrow> Response \<Rightarrow> (string + continuation) \<times> Response" where
  "hop X r a w =
     (case cook X r of
        Inl msg \<Rightarrow> (Inl msg, w)
      | Inr req \<Rightarrow>
          (case transport X r req (h2_error a) of
             Inl msg \<Rightarrow> (Inl msg, w)
           | Inr tr \<Rightarrow>
               (case hooks (events a) zero_marks w of
                  (Inl msg, w) \<Rightarrow> (Inl msg, w)
                | (Inr m, w) \<Rightarrow>
                    (case Do a of
                       Inl err \<Rightarrow> (makePanic (''Failed to read response: '' @ err), w)
                     | Inr resp \<Rightarrow>
                         redirect X r req resp
                           (print_report resp (bodyMsg a) (backfill m) (t5 a) w)))))"

section \<open>The trace\<close>

text \<open>
  \<^verbatim>\<open>visit\<close> runs one attempt and, on a redirect it follows, calls itself with the
  new URL and the same Response. The attempts that the world answers are given as a
  list, one entry for each call of \<^verbatim>\<open>visit\<close> in turn; the result is how the
  outermost call ends (\<open>Inl\<close> of the message of a panic, or \<open>Inr ()\<close> when it returns),
  the Response then, and the entries that were not used. \<open>None\<close> says that the list
  holds no entry for an attempt that \<^verbatim>\<open>visit\<close> makes.
\<close>

fun visit ::
  "ext \<Rightarrow> Request \<Rightarrow> attempt list \<Rightarrow> Response \<Rightarrow> ((string + unit) \<times> Response \<times> attempt list) option" where
  "visit X r [] w = None"
| "visit X r (a # as) w =
     (case hop X r a w of
        (Inl msg, w') \<Rightarrow> Some (Inl msg, w', as)
      | (Inr Stop, w') \<Rightarrow> Some (Inr (), w', as)
      | (Inr (Follow loc), w') \<Rightarrow> visit X (r\<lparr>URL := loc\<rparr>) as w')"

section \<open>Notions used to state the properties\<close>

subsection \<open>Lines of the log\<close>

text \<open>
  The entries that the hook of \<^verbatim>\<open>ConnectDone\<close> appends while the events of an attempt
  run: one for each connection made, up to the first connection that fails (where the
  hook panics).
\<close>

fun connected :: "event list \<Rightarrow> string list" where
  "connected [] = []"
| "connected (ConnectDone addr None now # es) = (''Connected to '' @ addr @ nl) # connected es"
| "connected (ConnectDone addr (Some e) now # es) = []"
| "connected (e # es) = connected es"

text \<open>The status line, the header lines and the message about the body, when there is one.\<close>

definition head_lines :: "http_Response \<Rightarrow> string \<Rightarrow> string list" where
  "head_lines resp msg =
     status_line resp # map (header_line resp) (sort_Headers (header_names resp))
       @ (if msg \<noteq> [] then [msg] else [])"

text \<open>The five lines of the phases and the entry of the total, from marks \<open>m\<close> and \<open>t5\<close>.\<close>

definition phase_lines :: "marks \<Rightarrow> time \<Rightarrow> string list" where
  "phase_lines m now =
     [''DNS lookup: '' @ fmta (Sub (t1 m) (t0 m)),
      ''TCP connection: '' @ fmta (Sub (t2 m) (t1 m)),
      ''TLS handshake: '' @ fmta (Sub (t3 m) (t2 m)),
      ''Server processing: '' @ fmta (Sub (t4 m) (t3 m)),
      ''Content transfer: '' @ fmta (Sub now (t4 m))]"

definition total_line :: "marks \<Rightarrow> time \<Rightarrow> string" where
  "total_line m now = nl @ ''Total: '' @ fmtb (Sub now (t0 m))"

text \<open>The entry that \<^verbatim>\<open>visit\<close> appends before it calls itself, none when it returns.\<close>

definition tail_lines :: "continuation \<Rightarrow> string list" where
  "tail_lines c = (case c of Stop \<Rightarrow> [] | Follow loc \<Rightarrow> [nl])"

text \<open>
  The lines of an attempt as the specification lists them, to be compared with the
  lines of the code: the status line, the header lines, the message about the body,
  a blank separator line, the five lines of the phases, a blank line and the line of
  the total.
\<close>

definition spec_report :: "http_Response \<Rightarrow> string \<Rightarrow> marks \<Rightarrow> time \<Rightarrow> string list" where
  "spec_report resp msg m now =
     [status_line resp] @ map (header_line resp) (sort_Headers (header_names resp))
       @ (if msg \<noteq> [] then [msg] else []) @ [[]]
       @ phase_lines m now @ [[], ''Total: '' @ fmtb (Sub now (t0 m))]"

subsection \<open>Instants and events\<close>

text \<open>
  The instants of an attempt are in the order of the lifecycle, and the attempt lasts
  no longer than the greatest duration (about 292 years).
\<close>

definition chronological :: "marks \<Rightarrow> time \<Rightarrow> bool" where
  "chronological m now =
     (t0 m \<le> t1 m \<and> t1 m \<le> t2 m \<and> t2 m \<le> t3 m \<and> t3 m \<le> t4 m \<and> t4 m \<le> now \<and>
      now - t0 m \<le> maxDuration)"

text \<open>Whether the hook of \<^verbatim>\<open>DNSStart\<close>, of \<^verbatim>\<open>DNSDone\<close>, runs among the events.\<close>

fun dns_started :: "event list \<Rightarrow> bool" where
  "dns_started [] = False"
| "dns_started (DNSStart now # es) = True"
| "dns_started (e # es) = dns_started es"

fun dns_done :: "event list \<Rightarrow> bool" where
  "dns_done [] = False"
| "dns_done (DNSDone now # es) = True"
| "dns_done (e # es) = dns_done es"

text \<open>No connection fails among the events.\<close>

fun connects :: "event list \<Rightarrow> bool" where
  "connects [] = True"
| "connects (ConnectDone addr (Some e) now # es) = False"
| "connects (e # es) = connects es"

subsection \<open>Redirects\<close>




text \<open>The zero value of the struct, \<^verbatim>\<open>Response{}\<close>.\<close>

definition new_Response :: Response where
  "new_Response = \<lparr>Log = [], redirectsFollowed = 0\<rparr>"

subsection \<open>Header lines\<close>

text \<open>
  Of the header lines given to \<^verbatim>\<open>cook\<close>, in their order: the values of those whose key
  is equal to \<^verbatim>\<open>host\<close> under case folding, and the values of the others whose key has
  the canonical form \<open>c\<close>.
\<close>

definition host_values :: "ext \<Rightarrow> string list \<Rightarrow> string list" where
  "host_values X hs =
     map (\<lambda>h. snd (headerKeyValue X h)) (filter (\<lambda>h. EqualFold_host (fst (headerKeyValue X h))) hs)"

definition plain_values :: "ext \<Rightarrow> string list \<Rightarrow> string \<Rightarrow> string list" where
  "plain_values X hs c =
     map (\<lambda>h. snd (headerKeyValue X h))
       (filter (\<lambda>h. \<not> EqualFold_host (fst (headerKeyValue X h)) \<and>
                     CanonicalMIMEHeaderKey X (fst (headerKeyValue X h)) = c) hs)"

subsection \<open>The lines reported up to the end of an attempt\<close>

text \<open>The marks that the hooks leave after the events of an attempt.\<close>

definition marks_after :: "event list \<Rightarrow> marks" where
  "marks_after evs =
     (case fst (hooks evs zero_marks new_Response) of Inl msg \<Rightarrow> zero_marks | Inr m \<Rightarrow> m)"

text \<open>
  The lines that an attempt has reported when it ends, by a panic or not, from what
  happens in it: none when the wire request cannot be built or the transport cannot
  be prepared (the panic comes before any report); otherwise the line of every
  connection made, up to the first connection that fails, and, when no connection
  fails and \<^verbatim>\<open>client.Do\<close> returns a response, the whole report of the response
  (a panic can then only come from the handling of the redirect, after the report).
\<close>

definition reported :: "ext \<Rightarrow> Request \<Rightarrow> attempt \<Rightarrow> string list" where
  "reported X r a =
     (case cook X r of
        Inl msg \<Rightarrow> []
      | Inr req \<Rightarrow>
          (case transport X r req (h2_error a) of
             Inl msg \<Rightarrow> []
           | Inr tr \<Rightarrow>
               connected (events a) @
               (if connects (events a) then
                  (case Do a of
                     Inl err \<Rightarrow> []
                   | Inr resp \<Rightarrow>
                       head_lines resp (bodyMsg a)
                         @ phase_lines (backfill (marks_after (events a))) (t5 a)
                         @ [total_line (backfill (marks_after (events a))) (t5 a)])
                else [])))"

text \<open>
  The lines of a trace: the lines of its attempts in turn, with the separator that
  \<^verbatim>\<open>visit\<close> reports before it follows a redirect.
\<close>

fun trace_reported :: "ext \<Rightarrow> Request \<Rightarrow> attempt list \<Rightarrow> Response \<Rightarrow> string list" where
  "trace_reported X r [] w = []"
| "trace_reported X r (a # as) w =
     reported X r a @
     (case hop X r a w of
        (Inr (Follow loc), w1) \<Rightarrow> nl # trace_reported X (r\<lparr>URL := loc\<rparr>) as w1
      | _ \<Rightarrow> [])"

subsection \<open>Host and port\<close>

text \<open>
  The Host without a port suffix, as the specification words it: when a colon and a
  port end the Host (the last colon, with no bracket after it), the part before that
  colon; the Host as it is otherwise.
\<close>

definition strip_port :: "string \<Rightarrow> string" where
  "strip_port host =
     (case LastIndexByte host (CHR '':'') of
        None \<Rightarrow> host
      | Some i \<Rightarrow> if CHR '']'' \<in> set (drop i host) then host else take i host)"

section \<open>Sample inputs\<close>

text \<open>
  Helper functions for the concrete evaluations: a header line is split at its first
  colon, header names are taken to be canonical as written, redirects are the
  statuses 300 to 399, a reference replaces the path of the URL.
\<close>

definition sample_ext :: ext where
  "sample_ext =
     \<lparr>headerKeyValue =
        (\<lambda>h. (takeWhile (\<lambda>c. c \<noteq> CHR '':'') h,
              dropWhile (\<lambda>c. c = CHR '':'' \<or> c = CHR '' '') (dropWhile (\<lambda>c. c \<noteq> CHR '':'') h))),
      CanonicalMIMEHeaderKey = (\<lambda>k. k),
      Quote = (\<lambda>s. CHR 0x22 # s @ [CHR 0x22]),
      readClientCert = (\<lambda>f. Inr []),
      isRedirect = (\<lambda>resp. 299 < StatusCode resp \<and> StatusCode resp < 400),
      URL_Parse = (\<lambda>u ref. Inr (u\<lparr>url_Rest := ref\<rparr>))\<rparr>"

subsection \<open>Requests\<close>

text \<open>A request for \<^verbatim>\<open>http://192.0.2.1/\<close> with the defaults of \<^verbatim>\<open>NewRequest\<close>, and its wire request.\<close>

definition sample_request :: Request where
  "sample_request =
     \<lparr>URL = \<lparr>url_Scheme = ''http'', url_Host = ''192.0.2.1'', url_Rest = ''/''\<rparr>,
      HTTPHeaders = [], HTTPMethod = ''GET'', PostBody = [], ClientCertFile = [],
      FollowRedirects = True, OnlyHeader = False, Insecure = False, ShowVersion = False,
      MaxRedirects = 2\<rparr>"

definition sample_wire :: http_Request where
  "sample_wire =
     \<lparr>Method = ''GET'',
      req_URL = \<lparr>url_Scheme = ''http'', url_Host = ''192.0.2.1'', url_Rest = ''/''\<rparr>,
      req_Header = [], Body = Some [], Host = ''192.0.2.1''\<rparr>"

text \<open>The same request with no redirect allowed.\<close>

definition strict_request :: Request where
  "strict_request = sample_request\<lparr>MaxRedirects := 0\<rparr>"

text \<open>The same request for the host name \<^verbatim>\<open>example.com\<close>.\<close>

definition named_request :: Request where
  "named_request =
     sample_request\<lparr>URL := \<lparr>url_Scheme = ''http'', url_Host = ''example.com'', url_Rest = ''/''\<rparr>\<rparr>"

text \<open>A request with two Host lines and a repeated header, and its wire request.\<close>

definition header_request :: Request where
  "header_request =
     sample_request\<lparr>HTTPHeaders := [''Host: a.example'', ''X-Foo: 1'', ''hOsT: b.example'',
                                    ''X-Foo: 2'', ''Accept: text/html'']\<rparr>"

definition cooked_header_request :: http_Request where
  "cooked_header_request =
     \<lparr>Method = ''GET'',
      req_URL = \<lparr>url_Scheme = ''http'', url_Host = ''192.0.2.1'', url_Rest = ''/''\<rparr>,
      req_Header = [(''X-Foo'', [''1'', ''2'']), (''Accept'', [''text/html''])],
      Body = Some [], Host = ''b.example''\<rparr>"

text \<open>A request for \<^verbatim>\<open>https://<host>/\<close> and its wire request.\<close>

definition https_request :: "string \<Rightarrow> Request" where
  "https_request host =
     sample_request\<lparr>URL := \<lparr>url_Scheme = ''https'', url_Host = host, url_Rest = ''/''\<rparr>\<rparr>"

definition https_wire :: "string \<Rightarrow> http_Request" where
  "https_wire host =
     \<lparr>Method = ''GET'',
      req_URL = \<lparr>url_Scheme = ''https'', url_Host = host, url_Rest = ''/''\<rparr>,
      req_Header = [], Body = Some [], Host = host\<rparr>"

subsection \<open>Responses of the server and attempts\<close>

definition ok_response :: http_Response where
  "ok_response =
     \<lparr>ProtoMajor = 1, ProtoMinor = 1, Status = ''200 OK'', StatusCode = 200,
      resp_Header = [(''X-Foo'', [''a'', ''b'']), (''Content-Type'', [''text/html''])]\<rparr>"

definition redirect_response :: http_Response where
  "redirect_response =
     \<lparr>ProtoMajor = 1, ProtoMinor = 1, Status = ''302 Found'', StatusCode = 302,
      resp_Header = [(''Location'', [''/next''])]\<rparr>"

definition bare_redirect_response :: http_Response where
  "bare_redirect_response =
     \<lparr>ProtoMajor = 1, ProtoMinor = 1, Status = ''302 Found'', StatusCode = 302,
      resp_Header = [(''Content-Length'', [''0''])]\<rparr>"

text \<open>An attempt on a literal IP address (no DNS events) that ends with \<open>resp\<close>.\<close>

definition ip_attempt :: "http_Response \<Rightarrow> attempt" where
  "ip_attempt resp =
     \<lparr>h2_error = None,
      events = [ConnectStart 1000000000, ConnectDone ''192.0.2.1:80'' None 1002500000,
                GotConn 1002600000, GotFirstResponseByte 1010000000],
      Do = Inr resp, bodyMsg = [], t5 = 1011000000\<rparr>"

text \<open>An attempt on a host name, with the two DNS events.\<close>

definition dns_attempt :: "http_Response \<Rightarrow> attempt" where
  "dns_attempt resp =
     \<lparr>h2_error = None,
      events = [DNSStart 1000000000, DNSDone 1012345678, ConnectStart 1012400000,
                ConnectDone ''93.184.216.34:443'' None 1030000000,
                GotConn 1075500000, GotFirstResponseByte 1190999999],
      Do = Inr resp, bodyMsg = ''Body discarded'', t5 = 1200000001\<rparr>"

text \<open>An attempt whose connection is refused.\<close>

definition refused_attempt :: attempt where
  "refused_attempt =
     \<lparr>h2_error = None,
      events = [ConnectStart 1000000000,
                ConnectDone ''192.0.2.1:80'' (Some ''connection refused'') 1002500000],
      Do = Inl ''connection refused'', bodyMsg = [], t5 = 1011000000\<rparr>"

text \<open>An attempt that connects and then gets no response.\<close>

definition reset_attempt :: attempt where
  "reset_attempt =
     \<lparr>h2_error = None,
      events = [ConnectStart 1000000000, ConnectDone ''192.0.2.1:80'' None 1002500000,
                GotConn 1002600000],
      Do = Inl ''Get http://192.0.2.1/next: EOF'', bodyMsg = [], t5 = 0\<rparr>"

text \<open>
  Two attempts on a host name with two addresses, where both connections are made and
  the hook of the second \<^verbatim>\<open>ConnectDone\<close> runs after the hook of \<^verbatim>\<open>GotConn\<close>: 1.5 ms
  after it in the first attempt, 0.5 ms after it in the second.
\<close>

definition late_connect_attempt :: attempt where
  "late_connect_attempt =
     \<lparr>h2_error = None,
      events = [DNSStart 1000000000, DNSDone 1012000000, ConnectStart 1012100000,
                ConnectStart 1312100000, ConnectDone ''192.0.2.1:80'' None 1320000000,
                GotConn 1320100000, ConnectDone ''[2001:db8::1]:80'' None 1321600000,
                GotFirstResponseByte 1330000000],
      Do = Inr ok_response, bodyMsg = [], t5 = 1331000000\<rparr>"

definition racing_attempt :: attempt where
  "racing_attempt =
     \<lparr>h2_error = None,
      events = [DNSStart 1000000000, DNSDone 1012000000, ConnectStart 1012100000,
                ConnectStart 1312100000, ConnectDone ''192.0.2.1:80'' None 1320000000,
                GotConn 1320500000, ConnectDone ''[2001:db8::1]:80'' None 1321000000,
                GotFirstResponseByte 1330500000],
      Do = Inr ok_response, bodyMsg = [], t5 = 1330900000\<rparr>"



subsection \<open>Marks and Responses of the sample attempts\<close>

text \<open>A Response that holds a line already.\<close>

definition used_Response :: Response where
  "used_Response = \<lparr>Log = [''earlier line''], redirectsFollowed = 0\<rparr>"

text \<open>The marks after the events of \<open>ip_attempt\<close> and of \<open>dns_attempt\<close>, and the Responses then.\<close>

definition ip_marks :: marks where
  "ip_marks = \<lparr>t0 = 0, t1 = 1000000000, t2 = 1002500000, t3 = 1002600000, t4 = 1010000000\<rparr>"

definition ip_connected :: Response where
  "ip_connected =
     \<lparr>Log = [''earlier line'', ''Connected to 192.0.2.1:80'' @ nl], redirectsFollowed = 0\<rparr>"

definition dns_marks :: marks where
  "dns_marks = \<lparr>t0 = 1000000000, t1 = 1012345678, t2 = 1030000000, t3 = 1075500000,
                t4 = 1190999999\<rparr>"

definition dns_connected :: Response where
  "dns_connected = \<lparr>Log = [''Connected to 93.184.216.34:443'' @ nl], redirectsFollowed = 0\<rparr>"

text \<open>The Responses in which the sample traces end.\<close>

definition ok_end :: Response where
  "ok_end =
     \<lparr>Log = [''Connected to 192.0.2.1:80'' @ nl, ''HTTP/1.1 200 OK'',
             ''Content-Type: text/html'', ''X-Foo: a,b'', ''DNS lookup: 0ms'',
             ''TCP connection: 2ms'', ''TLS handshake: 0ms'', ''Server processing: 7ms'',
             ''Content transfer: 1ms'', nl @ ''Total: 11ms''],
      redirectsFollowed = 0\<rparr>"

definition dns_end :: Response where
  "dns_end =
     \<lparr>Log = [''Connected to 93.184.216.34:443'' @ nl, ''HTTP/1.1 200 OK'',
             ''Content-Type: text/html'', ''X-Foo: a,b'', ''Body discarded'',
             ''DNS lookup: 12ms'', ''TCP connection: 17ms'', ''TLS handshake: 45ms'',
             ''Server processing: 115ms'', ''Content transfer: 9ms'', nl @ ''Total: 200ms''],
      redirectsFollowed = 0\<rparr>"

definition bare_end :: Response where
  "bare_end =
     \<lparr>Log = [''earlier line'', ''Connected to 192.0.2.1:80'' @ nl, ''HTTP/1.1 302 Found'',
             ''Content-Length: 0'', ''DNS lookup: 0ms'', ''TCP connection: 2ms'',
             ''TLS handshake: 0ms'', ''Server processing: 7ms'', ''Content transfer: 1ms'',
             nl @ ''Total: 11ms''],
      redirectsFollowed = 0\<rparr>"

definition strict_end :: Response where
  "strict_end =
     \<lparr>Log = [''earlier line'', ''Connected to 192.0.2.1:80'' @ nl, ''HTTP/1.1 302 Found'',
             ''Location: /next'', ''DNS lookup: 0ms'', ''TCP connection: 2ms'',
             ''TLS handshake: 0ms'', ''Server processing: 7ms'', ''Content transfer: 1ms'',
             nl @ ''Total: 11ms''],
      redirectsFollowed = 1\<rparr>"


definition reset_end :: Response where
  "reset_end =
     \<lparr>Log = [''earlier line'', ''Connected to 192.0.2.1:80'' @ nl, ''HTTP/1.1 302 Found'',
             ''Location: /next'', ''DNS lookup: 0ms'', ''TCP connection: 2ms'',
             ''TLS handshake: 0ms'', ''Server processing: 7ms'', ''Content transfer: 1ms'',
             nl @ ''Total: 11ms'', nl, ''Connected to 192.0.2.1:80'' @ nl],
      redirectsFollowed = 1\<rparr>"

definition late_connect_marks :: marks where
  "late_connect_marks =
     \<lparr>t0 = 1000000000, t1 = 1012000000, t2 = 1321600000, t3 = 1320100000, t4 = 1330000000\<rparr>"

definition late_connect_connected :: Response where
  "late_connect_connected =
     \<lparr>Log = [''Connected to 192.0.2.1:80'' @ nl, ''Connected to [2001:db8::1]:80'' @ nl],
      redirectsFollowed = 0\<rparr>"

definition late_connect_end :: Response where
  "late_connect_end =
     \<lparr>Log = [''Connected to 192.0.2.1:80'' @ nl, ''Connected to [2001:db8::1]:80'' @ nl,
             ''HTTP/1.1 200 OK'', ''Content-Type: text/html'', ''X-Foo: a,b'',
             ''DNS lookup: 12ms'', ''TCP connection: 309ms'', ''TLS handshake: -1ms'',
             ''Server processing: 9ms'', ''Content transfer: 1ms'', nl @ ''Total: 331ms''],
      redirectsFollowed = 0\<rparr>"

definition racing_end :: Response where
  "racing_end =
     \<lparr>Log = [''Connected to 192.0.2.1:80'' @ nl, ''Connected to [2001:db8::1]:80'' @ nl,
             ''HTTP/1.1 200 OK'', ''Content-Type: text/html'', ''X-Foo: a,b'',
             ''DNS lookup: 12ms'', ''TCP connection: 309ms'', ''TLS handshake: 0ms'',
             ''Server processing: 10ms'', ''Content transfer: 0ms'', nl @ ''Total: 330ms''],
      redirectsFollowed = 0\<rparr>"

section \<open>What each part appends to the log\<close>

lemma Log_report [simp]: "Log (report l w) = Log w @ [l]"
  by (simp add: report_def)

lemma redirectsFollowed_report [simp]: "redirectsFollowed (report l w) = redirectsFollowed w"
  by (simp add: report_def)

lemma hook_effect:
  "hook e m w = (res, w') \<Longrightarrow>
     Log w' = Log w @ connected [e] \<and> redirectsFollowed w' = redirectsFollowed w"
  by (cases e) (auto simp: makePanic_def split: option.splits)

lemma hook_Inr_connected:
  "hook e m w = (Inr m', w') \<Longrightarrow> connected (e # es) = connected [e] @ connected es"
  by (cases e) (auto simp: makePanic_def split: option.splits)

lemma hook_Inl_connected:
  "hook e m w = (Inl msg, w') \<Longrightarrow> connected (e # es) = []"
  by (cases e) (auto simp: makePanic_def split: option.splits)

lemma hooks_effect:
  "hooks es m w = (res, w') \<Longrightarrow>
     Log w' = Log w @ connected es \<and> redirectsFollowed w' = redirectsFollowed w"
proof (induction es arbitrary: m w)
  case Nil
  then show ?case by simp
next
  case (Cons e es)
  obtain r1 w1 where h: "hook e m w = (r1, w1)" by (cases "hook e m w")
  note eff = hook_effect [OF h]
  show ?case
  proof (cases r1)
    case (Inl msg)
    with Cons.prems h have "w' = w1" by simp
    moreover have "connected (e # es) = []" using h Inl hook_Inl_connected by blast
    moreover have "connected [e] = []" using h Inl hook_Inl_connected by blast
    ultimately show ?thesis using eff by simp
  next
    case (Inr m')
    with Cons.prems h have "hooks es m' w1 = (res, w')" by simp
    from Cons.IH [OF this] eff hook_Inr_connected [of e m w m' w1 es] h Inr
    show ?thesis by simp
  qed
qed

lemma report_headers_effect:
  "Log (report_headers resp ks w) = Log w @ map (header_line resp) ks \<and>
   redirectsFollowed (report_headers resp ks w) = redirectsFollowed w"
  by (induction ks arbitrary: w) auto

lemma print_report_Log:
  "Log (print_report resp msg m now w) =
     Log w @ head_lines resp msg @ phase_lines m now @ [total_line m now]"
  by (simp add: print_report_def Let_def report_headers_effect head_lines_def phase_lines_def
      total_line_def)

lemma print_report_redirectsFollowed:
  "redirectsFollowed (print_report resp msg m now w) = redirectsFollowed w"
  by (simp add: print_report_def Let_def report_headers_effect)

lemma redirect_Log:
  "redirect X r req resp w = (res, w') \<Longrightarrow>
     Log w' = Log w @ (case res of Inr (Follow loc) \<Rightarrow> [nl] | _ \<Rightarrow> [])"
  by (auto simp: redirect_def makePanic_def Let_def
      split: if_splits sum.splits location_error.splits)

text \<open>
  The ways in which the body of \<^verbatim>\<open>visit\<close> can end, with the Response it leaves: a panic
  before \<^verbatim>\<open>client.Do\<close>, a panic in \<^verbatim>\<open>client.Do\<close> or on its error, and the end in
  the last statement, after the report.
\<close>

lemma hop_cases:
  assumes "hop X r a w = (res, w')"
  obtains
    (early) msg where "res = Inl msg" "w' = w"
  | (connect) msg where "res = Inl msg" "hooks (events a) zero_marks w = (Inl msg, w')"
  | (read) m err where "res = Inl (''Failed to read response: '' @ err)"
      "hooks (events a) zero_marks w = (Inr m, w')" "Do a = Inl err"
  | (reported) req tr m w1 resp where "cook X r = Inr req"
      "transport X r req (h2_error a) = Inr tr"
      "hooks (events a) zero_marks w = (Inr m, w1)" "Do a = Inr resp"
      "redirect X r req resp (print_report resp (bodyMsg a) (backfill m) (t5 a) w1) = (res, w')"
  using assms
  by (auto simp: hop_def makePanic_def split: sum.splits prod.splits)

lemma hop_prefix: "hop X r a w = (res, w') \<Longrightarrow> prefix (Log w) (Log w')"
  by (erule hop_cases) (auto simp: print_report_Log dest!: hooks_effect redirect_Log)

lemma visit_prefix:
  "visit X r as w = Some (res, w', rest) \<Longrightarrow> prefix (Log w) (Log w')"
proof (induction as arbitrary: r w)
  case Nil
  then show ?case by simp
next
  case (Cons a as)
  obtain c w1 where h: "hop X r a w = (c, w1)" by (cases "hop X r a w")
  have p: "prefix (Log w) (Log w1)" using h by (rule hop_prefix)
  show ?case
  proof (cases c)
    case (Inl msg)
    with Cons.prems h show ?thesis using p by simp
  next
    case (Inr k)
    show ?thesis
    proof (cases k)
      case Stop
      with Cons.prems h Inr show ?thesis using p by simp
    next
      case (Follow loc)
      with Cons.prems h Inr have "visit X (r\<lparr>URL := loc\<rparr>) as w1 = Some (res, w', rest)" by simp
      from Cons.IH [OF this] p show ?thesis by (rule prefix_order.trans [rotated])
    qed
  qed
qed


section \<open>The redirect counter along a trace\<close>






section \<open>Redirects followed up to the limit\<close>










lemma Header_Get_absent: "map_of h k = None \<Longrightarrow> Header_Get h k = []"
  by (simp add: Header_Get_def values_of_def)

section \<open>The report of an attempt that ends without a panic\<close>

lemma hop_report:
  assumes "hop X r a w = (Inr c, w')"
  obtains req tr m w1 resp where "cook X r = Inr req" "transport X r req (h2_error a) = Inr tr"
    "hooks (events a) zero_marks w = (Inr m, w1)" "Do a = Inr resp"
    "Log w' = Log w @ connected (events a) @ head_lines resp (bodyMsg a)
               @ phase_lines (backfill m) (t5 a) @ [total_line (backfill m) (t5 a)] @ tail_lines c"
  using assms
proof (cases rule: hop_cases)
  case (reported req tr m w1 resp)
  have "Log w' = Log w @ connected (events a) @ head_lines resp (bodyMsg a)
               @ phase_lines (backfill m) (t5 a) @ [total_line (backfill m) (t5 a)] @ tail_lines c"
    using redirect_Log [OF reported(5)] hooks_effect [OF reported(3)]
    by (cases c) (simp_all add: print_report_Log tail_lines_def)
  with reported(1-4) show ?thesis by (rule that)
qed simp_all

lemma sort_Headers_sorted:
  "sorted_wrt (\<lambda>k k'. \<not> Headers_Less k' k) (sort_Headers names)"
proof -
  have "sorted (map fold_key (sort_key fold_key names))" by (rule sorted_sort_key)
  then show ?thesis
    by (simp add: sort_Headers_def Headers_Less_def sorted_wrt_map not_less)
qed

lemma sort_Headers_mset: "mset (sort_Headers names) = mset names"
  by (simp add: sort_Headers_def)

lemma quot_nonneg: "0 \<le> d \<Longrightarrow> quot d Millisecond = d div 1000000"
  by (simp add: quot_def Millisecond_def)

lemma quot_neg: "d < 0 \<Longrightarrow> quot d Millisecond = - ((- d) div 1000000)"
  by (simp add: quot_def Millisecond_def)

lemma Sub_in_range: "minDuration \<le> t - u \<Longrightarrow> t - u \<le> maxDuration \<Longrightarrow> Sub t u = t - u"
  by (simp add: Sub_def Let_def)

lemma Sub_nonneg: "u \<le> t \<Longrightarrow> 0 \<le> Sub t u"
  by (simp add: Sub_def Let_def minDuration_def maxDuration_def)

lemma Sub_self: "Sub t t = 0"
  by (simp add: Sub_def Let_def minDuration_def maxDuration_def)

lemma hop_duration_lines:
  assumes "hop X r a w = (Inr c, w')" and "hooks (events a) zero_marks w = (Inr m, w1)"
  shows "\<exists>pre. Log w' = pre @ phase_lines (backfill m) (t5 a) @ [total_line (backfill m) (t5 a)]
                  @ tail_lines c"
  using assms(1)
proof (cases rule: hop_report)
  case (1 req tr m' w1' resp)
  with assms(2) have "m' = m" by simp
  with 1(5) show ?thesis by auto
qed

lemma div_mod_parts:
  fixes d :: int
  obtains q r where "d = q * 1000000 + r" "0 \<le> r" "r \<le> 999999" "d div 1000000 = q"
proof
  show "d = (d div 1000000) * 1000000 + d mod 1000000" by simp
  show "0 \<le> d mod 1000000" by simp
  have "d mod 1000000 < 1000000" by simp
  then show "d mod 1000000 \<le> 999999" by simp
  show "d div 1000000 = d div 1000000" ..
qed

lemma div_of_parts:
  fixes q r :: int
  assumes "0 \<le> r" "r \<le> 4999999"
  shows "q \<le> (q * 1000000 + r) div 1000000 \<and> (q * 1000000 + r) div 1000000 \<le> q + 4"
proof -
  have d: "(q * 1000000 + r) div 1000000 = q + r div 1000000" by simp
  have lo: "0 \<le> r div 1000000" using assms(1) by (simp add: pos_imp_zdiv_nonneg_iff)
  have "r div 1000000 \<le> 4999999 div 1000000" using assms(2) by (intro zdiv_mono1) simp_all
  then have hi: "r div 1000000 \<le> 4" by simp
  show ?thesis unfolding d using lo hi by simp
qed

lemma floor_sum_5:
  fixes d1 d2 d3 d4 d5 :: int
  shows "d1 div 1000000 + d2 div 1000000 + d3 div 1000000 + d4 div 1000000 + d5 div 1000000
           \<le> (d1 + d2 + d3 + d4 + d5) div 1000000 \<and>
         (d1 + d2 + d3 + d4 + d5) div 1000000
           \<le> d1 div 1000000 + d2 div 1000000 + d3 div 1000000 + d4 div 1000000 + d5 div 1000000 + 4"
proof -
  obtain q1 r1 where p1: "d1 = q1 * 1000000 + r1" "0 \<le> r1" "r1 \<le> 999999" "d1 div 1000000 = q1"
    by (rule div_mod_parts)
  obtain q2 r2 where p2: "d2 = q2 * 1000000 + r2" "0 \<le> r2" "r2 \<le> 999999" "d2 div 1000000 = q2"
    by (rule div_mod_parts)
  obtain q3 r3 where p3: "d3 = q3 * 1000000 + r3" "0 \<le> r3" "r3 \<le> 999999" "d3 div 1000000 = q3"
    by (rule div_mod_parts)
  obtain q4 r4 where p4: "d4 = q4 * 1000000 + r4" "0 \<le> r4" "r4 \<le> 999999" "d4 div 1000000 = q4"
    by (rule div_mod_parts)
  obtain q5 r5 where p5: "d5 = q5 * 1000000 + r5" "0 \<le> r5" "r5 \<le> 999999" "d5 div 1000000 = q5"
    by (rule div_mod_parts)
  have s: "d1 + d2 + d3 + d4 + d5 = (q1 + q2 + q3 + q4 + q5) * 1000000 + (r1 + r2 + r3 + r4 + r5)"
    unfolding p1(1) p2(1) p3(1) p4(1) p5(1) by (simp only: distrib_right add_ac)
  have r: "0 \<le> r1 + r2 + r3 + r4 + r5" "r1 + r2 + r3 + r4 + r5 \<le> 4999999"
    using p1(2,3) p2(2,3) p3(2,3) p4(2,3) p5(2,3) by linarith+
  from div_of_parts [OF r, of "q1 + q2 + q3 + q4 + q5"]
  show ?thesis unfolding p1(4) p2(4) p3(4) p4(4) p5(4) s .
qed

lemma fmta_zero: "fmta 0 = ''0ms''"
  by code_simp

lemma quot_Millisecond_nonneg: "0 \<le> d \<Longrightarrow> 0 \<le> quot d Millisecond"
  by (simp add: quot_def Millisecond_def pos_imp_zdiv_nonneg_iff)

lemma hook_keeps_t0:
  "\<not> dns_started (e # es) \<Longrightarrow> hook e m w = (Inr m', w') \<Longrightarrow> t0 m' = t0 m \<and> \<not> dns_started es"
  by (cases e) (auto simp: makePanic_def split: option.splits)

lemma hooks_keep_t0:
  "\<not> dns_started es \<Longrightarrow> hooks es m w = (Inr m', w') \<Longrightarrow> t0 m' = t0 m"
proof (induction es arbitrary: m w)
  case Nil
  then show ?case by simp
next
  case (Cons e es)
  from Cons.prems(2) obtain m1 w1 where h: "hook e m w = (Inr m1, w1)"
    and r: "hooks es m1 w1 = (Inr m', w')"
    by (auto split: prod.splits sum.splits)
  from hook_keeps_t0 [OF Cons.prems(1) h] Cons.IH [OF _ r] show ?case by simp
qed

lemma hook_keeps_t1:
  "\<not> dns_done (e # es) \<Longrightarrow> t1 m \<noteq> 0 \<Longrightarrow> hook e m w = (Inr m', w') \<Longrightarrow>
     t1 m' = t1 m \<and> \<not> dns_done es"
  by (cases e) (auto simp: makePanic_def IsZero_def split: option.splits)

lemma hooks_keep_t1:
  "\<not> dns_done es \<Longrightarrow> t1 m \<noteq> 0 \<Longrightarrow> hooks es m w = (Inr m', w') \<Longrightarrow> t1 m' = t1 m"
proof (induction es arbitrary: m w)
  case Nil
  then show ?case by simp
next
  case (Cons e es)
  from Cons.prems(3) obtain m1 w1 where h: "hook e m w = (Inr m1, w1)"
    and r: "hooks es m1 w1 = (Inr m', w')"
    by (auto split: prod.splits sum.splits)
  from hook_keeps_t1 [OF Cons.prems(1,2) h] have "t1 m1 = t1 m" "\<not> dns_done es" by simp_all
  with Cons.IH [OF _ _ r] Cons.prems(2) show ?case by simp
qed

lemma chronological_Sub:
  assumes "chronological b now"
  shows "Sub (t1 b) (t0 b) = t1 b - t0 b" "Sub (t2 b) (t1 b) = t2 b - t1 b"
    "Sub (t3 b) (t2 b) = t3 b - t2 b" "Sub (t4 b) (t3 b) = t4 b - t3 b"
    "Sub now (t4 b) = now - t4 b" "Sub now (t0 b) = now - t0 b"
  using assms
  by (simp_all add: chronological_def Sub_def Let_def minDuration_def maxDuration_def)

section \<open>The wire request\<close>

lemma values_of_append_value:
  "values_of (append_value h k v) c = (if c = k then values_of h k @ [v] else values_of h c)"
  by (induction h k v rule: append_value.induct) (auto simp: values_of_def)

lemma keys_append_value:
  "distinct (map fst h) \<Longrightarrow> distinct (map fst (append_value h k v))"
proof (induction h k v rule: append_value.induct)
  case (1 k v)
  then show ?case by simp
next
  case (2 k' vs h k v)
  have "fst ` set (append_value h k v) \<subseteq> insert k (fst ` set h)"
    by (induction h k v rule: append_value.induct) auto
  with 2 show ?case by auto
qed

lemma set_header_fields:
  "Method (set_header X h req) = Method req"
  "req_URL (set_header X h req) = req_URL req"
  "Body (set_header X h req) = Body req"
  by (simp_all add: set_header_def split: prod.splits)

lemma set_headers_fields:
  "Method (set_headers X hs req) = Method req \<and> req_URL (set_headers X hs req) = req_URL req \<and>
   Body (set_headers X hs req) = Body req"
  by (induction hs arbitrary: req) (simp_all add: set_header_fields)

lemma set_headers_Host:
  "Host (set_headers X hs req) =
     (if host_values X hs = [] then Host req else last (host_values X hs))"
proof (induction hs arbitrary: req)
  case Nil
  then show ?case by (simp add: host_values_def)
next
  case (Cons h hs)
  show ?case
    by (cases "headerKeyValue X h")
      (auto simp: Cons.IH set_header_def host_values_def)
qed

lemma set_headers_values:
  "values_of (req_Header (set_headers X hs req)) c = values_of (req_Header req) c @ plain_values X hs c"
proof (induction hs arbitrary: req)
  case Nil
  then show ?case by (simp add: plain_values_def)
next
  case (Cons h hs)
  show ?case
    by (cases "headerKeyValue X h")
      (auto simp: Cons.IH set_header_def plain_values_def Header_Add_def values_of_append_value)
qed

lemma set_headers_distinct:
  "distinct (map fst (req_Header req)) \<Longrightarrow> distinct (map fst (req_Header (set_headers X hs req)))"
proof (induction hs arbitrary: req)
  case Nil
  then show ?case by simp
next
  case (Cons h hs)
  have "distinct (map fst (req_Header (set_header X h req)))"
    using Cons.prems
    by (cases "headerKeyValue X h") (auto simp: set_header_def Header_Add_def keys_append_value)
  then show ?case by (simp add: Cons.IH)
qed

lemma cook_Inr:
  assumes "cook X r = Inr req"
  obtains req0 where "NewRequest X (HTTPMethod r) (URL r) (createBody (PostBody r)) = Inr req0"
    "req = set_headers X (HTTPHeaders r) req0"
    "Host req0 = removeEmptyPort (url_Host (URL r))" "req_Header req0 = []"
    "Body req0 = Some (PostBody r)"
  using assms
  by (auto simp: cook_def NewRequest_def Let_def makePanic_def createBody_def
      split: sum.splits if_splits)

section \<open>Host and port\<close>

lemma IndexByte_Some:
  "IndexByte s c = Some i \<Longrightarrow> i < length s \<and> s ! i = c \<and> c \<notin> set (take i s)"
proof -
  assume a: "IndexByte s c = Some i"
  then have m: "c \<in> set s" and i: "i = length (takeWhile (\<lambda>x. x \<noteq> c) s)"
    by (auto simp: IndexByte_def split: if_splits)
  from m have "takeWhile (\<lambda>x. x \<noteq> c) s \<noteq> s" by (auto simp: takeWhile_eq_all_conv)
  then have l: "i < length s"
    unfolding i using length_takeWhile_le [of "\<lambda>x. x \<noteq> c" s]
    by (metis le_neq_implies_less takeWhile_eq_take take_all_iff order_refl)
  from nth_length_takeWhile [of "\<lambda>x. x \<noteq> c" s] l have "s ! i = c" unfolding i by simp
  moreover have "take i s = takeWhile (\<lambda>x. x \<noteq> c) s"
    unfolding i by (rule takeWhile_eq_take [symmetric])
  then have "c \<notin> set (take i s)" by (auto dest: set_takeWhileD)
  ultimately show ?thesis using l by simp
qed

lemma LastIndexByte_Some:
  "LastIndexByte s c = Some i \<Longrightarrow> i < length s \<and> s ! i = c \<and> c \<notin> set (drop (i + 1) s)"
proof -
  assume a: "LastIndexByte s c = Some i"
  then have m: "c \<in> set (rev s)"
    and i: "i = length s - 1 - length (takeWhile (\<lambda>x. x \<noteq> c) (rev s))"
    by (auto simp: LastIndexByte_def split: if_splits)
  define j where "j = length (takeWhile (\<lambda>x. x \<noteq> c) (rev s))"
  from m have "IndexByte (rev s) c = Some j" by (simp add: IndexByte_def j_def)
  from IndexByte_Some [OF this] have j: "j < length s" "rev s ! j = c" "c \<notin> set (take j (rev s))"
    by simp_all
  have ij: "i = length s - 1 - j" using i j_def by simp
  then have l: "i < length s" using j(1) by simp
  have "s ! i = c" using j(1,2) ij by (simp add: rev_nth Suc_diff_Suc)
  moreover have "drop (i + 1) s = rev (take j (rev s))"
    using j(1) ij by (simp add: take_rev Suc_diff_Suc)
  then have "c \<notin> set (drop (i + 1) s)" using j(3) by simp
  ultimately show ?thesis using l by simp
qed

lemma LastIndexByte_None: "c \<notin> set s \<Longrightarrow> LastIndexByte s c = None"
  by (simp add: LastIndexByte_def)

lemma LastIndexByte_append:
  "c \<notin> set p \<Longrightarrow> LastIndexByte (h @ c # p) c = Some (length h)"
proof -
  assume a: "c \<notin> set p"
  have "takeWhile (\<lambda>x. x \<noteq> c) (rev p @ c # rev h) = rev p"
    using a by (subst takeWhile_append2) auto
  then show ?thesis by (simp add: LastIndexByte_def)
qed

lemma SplitHostPort_no_colon:
  "CHR '':'' \<notin> set hp \<Longrightarrow> SplitHostPort hp = Inl ''missing port in address''"
  by (simp add: SplitHostPort_def LastIndexByte_None)

lemma SplitHostPort_host_port:
  assumes "set h \<inter> {CHR '':'', CHR ''['', CHR '']''} = {}"
    and "set p \<inter> {CHR '':'', CHR ''['', CHR '']''} = {}"
  shows "SplitHostPort (h @ '':'' @ p) = Inr (h, p)"
proof -
  have l: "LastIndexByte (h @ '':'' @ p) (CHR '':'') = Some (length h)"
    using assms(2) LastIndexByte_append [of "CHR '':''" p h] by simp
  have z: "(h @ '':'' @ p) ! 0 \<noteq> CHR ''[''"
    using assms(1) by (cases h) auto
  show ?thesis
    using assms l z by (auto simp: SplitHostPort_def split_tail_def Let_def)
qed

lemma split_tail_Inr:
  "split_tail hp host i j k = Inr (h, p) \<Longrightarrow> h = host \<and> p = drop (i + 1) hp"
  by (auto simp: split_tail_def split: if_splits)

lemma SplitHostPort_shape:
  assumes "SplitHostPort hp = Inr (h, p)"
  shows "hp = h @ '':'' @ p \<or> hp = ''['' @ h @ '']:'' @ p"
proof -
  from assms obtain i where li: "LastIndexByte hp (CHR '':'') = Some i"
    by (auto simp: SplitHostPort_def split: option.splits)
  from LastIndexByte_Some [OF li] have i: "i < length hp" "hp ! i = CHR '':''" by simp_all
  have hpi: "hp = take i hp @ '':'' @ drop (i + 1) hp"
    using i id_take_nth_drop [of i hp] by simp
  show ?thesis
  proof (cases "hp ! 0 = CHR ''[''")
    case False
    with assms li have "split_tail hp (take i hp) i 0 0 = Inr (h, p)"
      by (auto simp: SplitHostPort_def Let_def split: if_splits)
    from split_tail_Inr [OF this] hpi show ?thesis by simp
  next
    case True
    with assms li obtain e where ei: "IndexByte hp (CHR '']'') = Some e" and e1: "e + 1 = i"
      and st: "split_tail hp (take (e - 1) (drop 1 hp)) i 1 (e + 1) = Inr (h, p)"
      by (auto simp: SplitHostPort_def Let_def split: if_splits option.splits)
    from IndexByte_Some [OF ei] have e: "e < length hp" "hp ! e = CHR '']''" by simp_all
    have e0: "e \<noteq> 0"
    proof
      assume "e = 0"
      with True e(2) show False by simp
    qed
    from split_tail_Inr [OF st] have h: "h = take (e - 1) (drop 1 hp)" and p: "p = drop (i + 1) hp"
      by simp_all
    have "take i hp = take e hp @ '']''"
      using e e1 [symmetric] by (simp add: take_Suc_conv_app_nth)
    moreover have "take e hp = ''['' @ take (e - 1) (drop 1 hp)"
      using e0 True e(1) by (cases hp; cases e) simp_all
    ultimately have "hp = ''['' @ h @ '']:'' @ p" using hpi h p by simp
    then show ?thesis by simp
  qed
qed

lemma cook_Host:
  "cook X r = Inr req \<Longrightarrow> host_values X (HTTPHeaders r) = [] \<Longrightarrow>
     Host req = removeEmptyPort (url_Host (URL r))"
  by (erule cook_Inr) (simp add: set_headers_Host)

lemma server_name_no_colon: "CHR '':'' \<notin> set (Host req) \<Longrightarrow> server_name req = Host req"
  by (simp add: server_name_def SplitHostPort_no_colon)

lemma server_name_host_port:
  "Host req = h @ '':'' @ p \<Longrightarrow> set h \<inter> {CHR '':'', CHR ''['', CHR '']''} = {} \<Longrightarrow>
     set p \<inter> {CHR '':'', CHR ''['', CHR '']''} = {} \<Longrightarrow> server_name req = h"
proof -
  assume a: "Host req = h @ '':'' @ p" and b: "set h \<inter> {CHR '':'', CHR ''['', CHR '']''} = {}"
    and c: "set p \<inter> {CHR '':'', CHR ''['', CHR '']''} = {}"
  have "SplitHostPort (Host req) = Inr (h, p)"
    unfolding a using b c by (rule SplitHostPort_host_port)
  then show ?thesis by (simp add: server_name_def)
qed

lemma server_name_shape:
  "server_name req = Host req \<or> (\<exists>p. Host req = server_name req @ '':'' @ p) \<or>
   (\<exists>p. Host req = ''['' @ server_name req @ '']:'' @ p)"
proof (cases "SplitHostPort (Host req)")
  case (Inl err)
  then show ?thesis by (simp add: server_name_def)
next
  case (Inr hp)
  obtain h p where hp: "hp = (h, p)" by (cases hp)
  with Inr have "server_name req = h" by (simp add: server_name_def)
  with SplitHostPort_shape [of "Host req" h p] Inr hp show ?thesis by auto
qed

lemma transport_https:
  "url_Scheme (URL r) = ''https'' \<Longrightarrow> transport X r req h2 = Inr tr \<Longrightarrow>
     \<exists>cfg. tr = Some cfg \<and> ServerName cfg = server_name req"
  by (auto simp: transport_def makePanic_def split: sum.splits option.splits)

lemma server_name_example_port: "Host req = ''example.com:8443'' \<Longrightarrow> server_name req = ''example.com''"
  using server_name_host_port [of req "''example.com''" "''8443''"] by simp

lemma server_name_example: "Host req = ''example.com'' \<Longrightarrow> server_name req = ''example.com''"
  using server_name_no_colon [of req] by simp

lemma removeEmptyPort_examples:
  "removeEmptyPort ''example.com:8443'' = ''example.com:8443''"
  "removeEmptyPort ''example.com'' = ''example.com''"
  by (simp_all add: removeEmptyPort_def)

lemma IndexByte_append:
  "c \<notin> set h \<Longrightarrow> IndexByte (h @ c # p) c = Some (length h)"
proof -
  assume a: "c \<notin> set h"
  then have "takeWhile (\<lambda>x. x \<noteq> c) (h @ c # p) = h"
    by (subst takeWhile_append2) auto
  then show ?thesis by (simp add: IndexByte_def)
qed

lemma SplitHostPort_bracketed:
  assumes "set h \<inter> {CHR ''['', CHR '']''} = {}"
    and "set p \<inter> {CHR '':'', CHR ''['', CHR '']''} = {}"
  shows "SplitHostPort (''['' @ h @ '']:'' @ p) = Inr (h, p)"
proof -
  let ?hp = "''['' @ h @ '']:'' @ p"
  have l: "LastIndexByte ?hp (CHR '':'') = Some (length h + 2)"
    using assms(2) LastIndexByte_append [of "CHR '':''" p "''['' @ h @ '']''"] by simp
  have e: "IndexByte ?hp (CHR '']'') = Some (length h + 1)"
    using assms(1) IndexByte_append [of "CHR '']''" "''['' @ h" "'':'' @ p"] by simp
  have t: "split_tail ?hp h (length h + 2) 1 (length h + 2) = Inr (h, p)"
    using assms by (auto simp: split_tail_def)
  show ?thesis
    unfolding SplitHostPort_def l e using t by simp
qed

lemma server_name_bracketed:
  "Host req = ''['' @ h @ '']:'' @ p \<Longrightarrow> set h \<inter> {CHR ''['', CHR '']''} = {} \<Longrightarrow>
     set p \<inter> {CHR '':'', CHR ''['', CHR '']''} = {} \<Longrightarrow> server_name req = h"
proof -
  assume a: "Host req = ''['' @ h @ '']:'' @ p" and b: "set h \<inter> {CHR ''['', CHR '']''} = {}"
    and c: "set p \<inter> {CHR '':'', CHR ''['', CHR '']''} = {}"
  have "SplitHostPort (Host req) = Inr (h, p)"
    unfolding a using b c by (rule SplitHostPort_bracketed)
  then show ?thesis by (simp add: server_name_def)
qed

section \<open>The lines reported up to the end of an attempt\<close>

lemma hook_fst: "fst (hook e m w) = fst (hook e m w')"
  by (cases e) (auto split: option.splits)

lemma hooks_fst: "fst (hooks es m w) = fst (hooks es m w')"
proof (induction es arbitrary: m w w')
  case Nil
  then show ?case by simp
next
  case (Cons e es)
  obtain r1 w1 where a: "hook e m w = (r1, w1)" by (cases "hook e m w")
  obtain r2 w2 where b: "hook e m w' = (r2, w2)" by (cases "hook e m w'")
  from hook_fst [of e m w w'] a b have "r1 = r2" by simp
  with a b Cons.IH [of _ w1 w2] show ?case by (auto split: sum.splits)
qed

lemma marks_after_hooks: "hooks evs zero_marks w = (Inr m, w1) \<Longrightarrow> marks_after evs = m"
  using hooks_fst [of evs zero_marks new_Response w] by (simp add: marks_after_def)

lemma hook_connects:
  "hook e m w = (res, w') \<Longrightarrow> (case res of Inl msg \<Rightarrow> \<not> connects (e # es) | Inr m' \<Rightarrow> connects (e # es) = connects es)"
  by (cases e) (auto simp: makePanic_def split: option.splits)

lemma hooks_connects_iff:
  "hooks es m w = (res, w') \<Longrightarrow> connects es = (case res of Inl msg \<Rightarrow> False | Inr m' \<Rightarrow> True)"
proof (induction es arbitrary: m w)
  case Nil
  then show ?case by auto
next
  case (Cons e es)
  obtain r1 w1 where h: "hook e m w = (r1, w1)" by (cases "hook e m w")
  show ?case
  proof (cases r1)
    case (Inl msg)
    with Cons.prems h have "res = Inl msg" by simp
    with hook_connects [OF h, of es] Inl show ?thesis by simp
  next
    case (Inr m')
    with Cons.prems h have "hooks es m' w1 = (res, w')" by simp
    from Cons.IH [OF this] hook_connects [OF h, of es] Inr show ?thesis by simp
  qed
qed

lemma hop_outcomes:
  assumes "hop X r a w = (res, w')"
  obtains
    (request) msg where "cook X r = Inl msg" "res = Inl msg" "w' = w"
  | (transport) req msg where "cook X r = Inr req"
      "transport X r req (h2_error a) = Inl msg" "res = Inl msg" "w' = w"
  | (connect) req tr msg where "cook X r = Inr req" "transport X r req (h2_error a) = Inr tr"
      "hooks (events a) zero_marks w = (Inl msg, w')" "res = Inl msg"
  | (read) req tr m err where "cook X r = Inr req" "transport X r req (h2_error a) = Inr tr"
      "hooks (events a) zero_marks w = (Inr m, w')" "Do a = Inl err"
      "res = Inl (''Failed to read response: '' @ err)"
  | (reported) req tr m w1 resp where "cook X r = Inr req"
      "transport X r req (h2_error a) = Inr tr"
      "hooks (events a) zero_marks w = (Inr m, w1)" "Do a = Inr resp"
      "redirect X r req resp (print_report resp (bodyMsg a) (backfill m) (t5 a) w1) = (res, w')"
  using assms
  by (auto simp: hop_def makePanic_def split: sum.splits prod.splits)

lemma hop_reported:
  assumes "hop X r a w = (res, w')"
  shows "Log w' = Log w @ reported X r a @ (case res of Inr (Follow loc) \<Rightarrow> [nl] | _ \<Rightarrow> [])"
  using assms
proof (cases rule: hop_outcomes)
  case (request msg)
  then show ?thesis by (simp add: reported_def)
next
  case (transport req msg)
  then show ?thesis by (simp add: reported_def)
next
  case (connect req tr msg)
  from hooks_connects_iff [OF connect(3)] have "\<not> connects (events a)" by simp
  with connect hooks_effect [OF connect(3)] show ?thesis by (simp add: reported_def)
next
  case (read req tr m err)
  from hooks_connects_iff [OF read(3)] have "connects (events a)" by simp
  with read hooks_effect [OF read(3)] show ?thesis by (simp add: reported_def)
next
  case (reported req tr m w1 resp)
  from hooks_connects_iff [OF reported(3)] have c: "connects (events a)" by simp
  have m: "marks_after (events a) = m" using reported(3) by (rule marks_after_hooks)
  have "Log w' = Log w @ connected (events a) @ head_lines resp (bodyMsg a)
          @ phase_lines (backfill m) (t5 a) @ [total_line (backfill m) (t5 a)]
          @ (case res of Inr (Follow loc) \<Rightarrow> [nl] | _ \<Rightarrow> [])"
    using redirect_Log [OF reported(5)] hooks_effect [OF reported(3)]
    by (simp add: print_report_Log)
  with reported(1,2,4) c m show ?thesis by (simp add: reported_def)
qed

lemma visit_reported:
  "visit X r as w = Some (res, w', rest) \<Longrightarrow> Log w' = Log w @ trace_reported X r as w"
proof (induction as arbitrary: r w)
  case Nil
  then show ?case by simp
next
  case (Cons a as)
  obtain c w1 where h: "hop X r a w = (c, w1)" by (cases "hop X r a w")
  note l = hop_reported [OF h]
  show ?case
  proof (cases c)
    case (Inl msg)
    with Cons.prems h have "w' = w1" by simp
    with l h Inl show ?thesis by simp
  next
    case (Inr k)
    show ?thesis
    proof (cases k)
      case Stop
      with Cons.prems h Inr have "w' = w1" by simp
      with l h Inr Stop show ?thesis by simp
    next
      case (Follow loc)
      with Cons.prems h Inr have "visit X (r\<lparr>URL := loc\<rparr>) as w1 = Some (res, w', rest)" by simp
      from Cons.IH [OF this] l h Inr Follow show ?thesis by simp
    qed
  qed
qed

section \<open>Truncation and saturation\<close>

lemma quot_Millisecond: "quot d 1000000 = (if 0 \<le> d then d div 1000000 else - ((- d) div 1000000))"
  by (simp add: quot_def)

lemma Sub_cases:
  "Sub t u = (if t - u < - (2 ^ 63) then - (2 ^ 63) else if 2 ^ 63 - 1 < t - u then 2 ^ 63 - 1 else t - u)"
  by (simp add: Sub_def Let_def minDuration_def maxDuration_def)

section \<open>The order of the report lines\<close>

text \<open>
  C1, as the specification states it, lists the lines of an attempt as: status line,
  header lines, message about the body, a blank separator line, five phase lines, a
  blank line and the total line, and nothing else. The code appends an entry
  \<^verbatim>\<open>Connected to <addr>\<close> (ending in a newline) when the connection is made, before the
  status line; it appends no blank separator before the phase lines; and the blank line
  and the total are one entry. For an attempt on 192.0.2.1 that ends with 200 OK the
  log differs from the listed lines, as entries and as the text that \<^verbatim>\<open>String\<close> renders.
\<close>

theorem report_lines_counterexample:
  "hop sample_ext sample_request (ip_attempt ok_response) new_Response = (Inr Stop, ok_end) \<and>
   Log ok_end \<noteq>
     Log new_Response
       @ spec_report ok_response (bodyMsg (ip_attempt ok_response)) (backfill ip_marks)
           (t5 (ip_attempt ok_response)) \<and>
   String ok_end \<noteq>
     Join (Log new_Response
       @ spec_report ok_response (bodyMsg (ip_attempt ok_response)) (backfill ip_marks)
           (t5 (ip_attempt ok_response))) nl"
  by code_simp

text \<open>
  C1, amended. For every attempt that ends without a panic, the entries appended to
  the log are, in this order and nothing else: one entry \<^verbatim>\<open>Connected to <addr>\<close> for
  each connection made; the status line; the header lines, in ascending order of the
  comparison of header names (a permutation of the names of the response); the message
  about the body when it is not empty; the five lines of the phases; one entry made of
  a newline and the total; and, when a redirect is then followed, one entry that is a
  newline.
\<close>

theorem report_lines_order:
  assumes "hop X r a w = (Inr c, w')"
  shows "\<exists>resp m. Do a = Inr resp \<and> fst (hooks (events a) zero_marks w) = Inr m \<and>
     Log w' = Log w @ connected (events a)
       @ [status_line resp]
       @ map (header_line resp) (sort_Headers (header_names resp))
       @ (if bodyMsg a \<noteq> [] then [bodyMsg a] else [])
       @ phase_lines (backfill m) (t5 a)
       @ [total_line (backfill m) (t5 a)]
       @ (case c of Stop \<Rightarrow> [] | Follow loc \<Rightarrow> [nl]) \<and>
     sorted_wrt (\<lambda>k k'. \<not> Headers_Less k' k) (sort_Headers (header_names resp)) \<and>
     mset (sort_Headers (header_names resp)) = mset (header_names resp)"
  using assms
proof (cases rule: hop_report)
  case (1 req tr m w1 resp)
  from 1(5) have "Log w' = Log w @ connected (events a)
       @ [status_line resp]
       @ map (header_line resp) (sort_Headers (header_names resp))
       @ (if bodyMsg a \<noteq> [] then [bodyMsg a] else [])
       @ phase_lines (backfill m) (t5 a)
       @ [total_line (backfill m) (t5 a)]
       @ (case c of Stop \<Rightarrow> [] | Follow loc \<Rightarrow> [nl])"
    by (simp add: head_lines_def tail_lines_def)
  with 1(3,4) sort_Headers_sorted sort_Headers_mset show ?thesis by force
qed

theorem report_lines_order_witness:
  "hop sample_ext sample_request (ip_attempt ok_response) new_Response = (Inr Stop, ok_end) \<and>
   (\<exists>resp m. Do (ip_attempt ok_response) = Inr resp \<and>
      fst (hooks (events (ip_attempt ok_response)) zero_marks new_Response) = Inr m \<and>
      Log ok_end = Log new_Response @ connected (events (ip_attempt ok_response))
        @ [status_line resp]
        @ map (header_line resp) (sort_Headers (header_names resp))
        @ (if bodyMsg (ip_attempt ok_response) \<noteq> [] then [bodyMsg (ip_attempt ok_response)] else [])
        @ phase_lines (backfill m) (t5 (ip_attempt ok_response))
        @ [total_line (backfill m) (t5 (ip_attempt ok_response))]
        @ (case Stop of Stop \<Rightarrow> [] | Follow loc \<Rightarrow> [nl]) \<and>
      sorted_wrt (\<lambda>k k'. \<not> Headers_Less k' k) (sort_Headers (header_names resp)) \<and>
      mset (sort_Headers (header_names resp)) = mset (header_names resp))"
proof -
  have h: "hop sample_ext sample_request (ip_attempt ok_response) new_Response = (Inr Stop, ok_end)"
    by code_simp
  from report_lines_order [OF h] h show ?thesis by blast
qed

section \<open>The budget of redirects\<close>



section \<open>A redirect without a Location\<close>

text \<open>
  C3. An attempt gets a response of a redirect status that has no Location header, and
  redirects are followed. Then the trace returns (it does not panic), no further
  attempt is made, the counter of redirects is as it was, and the log ends with the
  whole report of the attempt, the lines of the phases and the total included.
\<close>

theorem no_location_stops:
  assumes "cook X r = Inr req" and "transport X r req (h2_error a) = Inr tr"
    and "hooks (events a) zero_marks w = (Inr m, w1)" and "Do a = Inr resp"
    and "FollowRedirects r" and "isRedirect X resp"
    and "map_of (resp_Header resp) ''Location'' = None"
  shows "\<exists>w'. visit X r (a # as) w = Some (Inr (), w', as) \<and>
           redirectsFollowed w' = redirectsFollowed w \<and>
           Log w' = Log w @ connected (events a) @ head_lines resp (bodyMsg a)
                      @ phase_lines (backfill m) (t5 a) @ [total_line (backfill m) (t5 a)]"
proof -
  let ?w2 = "print_report resp (bodyMsg a) (backfill m) (t5 a) w1"
  have "redirect X r req resp ?w2 = (Inr Stop, ?w2)"
    using assms(5,6) Header_Get_absent [OF assms(7)]
    by (simp add: redirect_def Location_def)
  then have "hop X r a w = (Inr Stop, ?w2)"
    using assms(1-4) by (simp add: hop_def)
  then have "visit X r (a # as) w = Some (Inr (), ?w2, as)" by simp
  moreover have "redirectsFollowed ?w2 = redirectsFollowed w"
    using hooks_effect [OF assms(3)] by (simp add: print_report_redirectsFollowed)
  moreover have "Log ?w2 = Log w @ connected (events a) @ head_lines resp (bodyMsg a)
                      @ phase_lines (backfill m) (t5 a) @ [total_line (backfill m) (t5 a)]"
    using hooks_effect [OF assms(3)] by (simp add: print_report_Log)
  ultimately show ?thesis by blast
qed

theorem no_location_stops_witness:
  "cook sample_ext sample_request = Inr sample_wire \<and>
   hooks (events (ip_attempt bare_redirect_response)) zero_marks used_Response =
     (Inr ip_marks, ip_connected) \<and>
   map_of (resp_Header bare_redirect_response) ''Location'' = None \<and>
   (\<exists>w'. visit sample_ext sample_request
            [ip_attempt bare_redirect_response, ip_attempt ok_response] used_Response =
            Some (Inr (), w', [ip_attempt ok_response]) \<and>
          redirectsFollowed w' = redirectsFollowed used_Response \<and>
          Log w' = [''earlier line'', ''Connected to 192.0.2.1:80'' @ nl, ''HTTP/1.1 302 Found'',
                    ''Content-Length: 0'', ''DNS lookup: 0ms'', ''TCP connection: 2ms'',
                    ''TLS handshake: 0ms'', ''Server processing: 7ms'',
                    ''Content transfer: 1ms'', nl @ ''Total: 11ms''])"
proof -
  let ?a = "ip_attempt bare_redirect_response"
  have c: "cook sample_ext sample_request = Inr sample_wire"
    and t: "transport sample_ext sample_request sample_wire (h2_error ?a) = Inr None"
    and h: "hooks (events ?a) zero_marks used_Response = (Inr ip_marks, ip_connected)"
    and d: "Do ?a = Inr bare_redirect_response"
    and f: "FollowRedirects sample_request"
    and i: "isRedirect sample_ext bare_redirect_response"
    and n: "map_of (resp_Header bare_redirect_response) ''Location'' = None"
    by code_simp+
  have l: "Log used_Response @ connected (events ?a) @ head_lines bare_redirect_response (bodyMsg ?a)
             @ phase_lines (backfill ip_marks) (t5 ?a) @ [total_line (backfill ip_marks) (t5 ?a)] =
           [''earlier line'', ''Connected to 192.0.2.1:80'' @ nl, ''HTTP/1.1 302 Found'',
            ''Content-Length: 0'', ''DNS lookup: 0ms'', ''TCP connection: 2ms'',
            ''TLS handshake: 0ms'', ''Server processing: 7ms'',
            ''Content transfer: 1ms'', nl @ ''Total: 11ms'']"
    by code_simp
  from no_location_stops [OF c t h d f i n, of "[ip_attempt ok_response]"] l
  have "\<exists>w'. visit sample_ext sample_request
            [ip_attempt bare_redirect_response, ip_attempt ok_response] used_Response =
            Some (Inr (), w', [ip_attempt ok_response]) \<and>
          redirectsFollowed w' = redirectsFollowed used_Response \<and>
          Log w' = [''earlier line'', ''Connected to 192.0.2.1:80'' @ nl, ''HTTP/1.1 302 Found'',
                    ''Content-Length: 0'', ''DNS lookup: 0ms'', ''TCP connection: 2ms'',
                    ''TLS handshake: 0ms'', ''Server processing: 7ms'',
                    ''Content transfer: 1ms'', nl @ ''Total: 11ms'']"
    by simp
  with c h n show ?thesis by blast
qed

section \<open>The durations of the phases\<close>

text \<open>
  C4, as the specification states it, says that every line of a completed attempt
  prints its duration floored to whole milliseconds. The code divides by
  \<^verbatim>\<open>time.Millisecond\<close> with Go's integer division, which truncates towards zero, and
  a completed attempt can hold a negative duration: when a host name has two
  addresses and both connections are made, the hook of the second \<^verbatim>\<open>ConnectDone\<close> can
  run after the hook of \<^verbatim>\<open>GotConn\<close>. With \<open>t3 - t2\<close> of -1.5 ms the floor is -2 and the
  line printed is \<^verbatim>\<open>TLS handshake: -1ms\<close>.
\<close>

theorem floored_durations_counterexample:
  "hop sample_ext named_request late_connect_attempt new_Response = (Inr Stop, late_connect_end) \<and>
   hooks (events late_connect_attempt) zero_marks new_Response =
     (Inr late_connect_marks, late_connect_connected) \<and>
   t3 late_connect_marks - t2 late_connect_marks = - 1500000 \<and>
   ''TLS handshake: '' @ show_int ((t3 late_connect_marks - t2 late_connect_marks) div 1000000) @ ''ms'' =
     ''TLS handshake: -2ms'' \<and>
   Log late_connect_end ! 7 = ''TLS handshake: -1ms''"
  by code_simp

text \<open>
  C4, amended. For every attempt that ends without a panic, the last entries of its
  report are the five lines of the phases and the total, each a number of
  milliseconds with the suffix \<^verbatim>\<open>ms\<close>: DNS lookup from \<open>t1 - t0\<close>, TCP connection from
  \<open>t2 - t1\<close>, TLS handshake from \<open>t3 - t2\<close>, Server processing from \<open>t4 - t3\<close>, Content
  transfer from \<open>t5 - t4\<close> and Total from \<open>t5 - t0\<close>, where \<open>t0\<close> is taken after the
  backfill (it is \<open>t1\<close> when \<open>t0\<close> is still unset). Each difference is that of
  \<^verbatim>\<open>Time.Sub\<close>, which is the difference of the instants kept within the range of a
  duration, and the number printed is the duration in milliseconds truncated towards
  zero: its floor when the duration is not negative (\<open>div\<close> on the integers rounds
  down), and the negated floor of its negation when it is negative.
\<close>

theorem phase_durations:
  assumes "hop X r a w = (Inr c, w')" and "hooks (events a) zero_marks w = (Inr m, w1)"
  shows "(\<exists>pre. Log w' = pre @
            [''DNS lookup: '' @ show_int (quot (Sub (t1 m) (t0 (backfill m))) 1000000) @ ''ms'',
             ''TCP connection: '' @ show_int (quot (Sub (t2 m) (t1 m)) 1000000) @ ''ms'',
             ''TLS handshake: '' @ show_int (quot (Sub (t3 m) (t2 m)) 1000000) @ ''ms'',
             ''Server processing: '' @ show_int (quot (Sub (t4 m) (t3 m)) 1000000) @ ''ms'',
             ''Content transfer: '' @ show_int (quot (Sub (t5 a) (t4 m)) 1000000) @ ''ms'',
             nl @ ''Total: '' @ show_int (quot (Sub (t5 a) (t0 (backfill m))) 1000000) @ ''ms'']
            @ (case c of Stop \<Rightarrow> [] | Follow loc \<Rightarrow> [nl])) \<and>
         t0 (backfill m) = (if t0 m = 0 then t1 m else t0 m) \<and>
         (\<forall>t u. Sub t u =
            (if t - u < - (2 ^ 63) then - (2 ^ 63)
             else if 2 ^ 63 - 1 < t - u then 2 ^ 63 - 1 else t - u)) \<and>
         (\<forall>d. quot d 1000000 = (if 0 \<le> d then d div 1000000 else - ((- d) div 1000000)))"
proof (intro conjI)
  from hop_duration_lines [OF assms] obtain pre where
    "Log w' = pre @ phase_lines (backfill m) (t5 a) @ [total_line (backfill m) (t5 a)] @ tail_lines c"
    by blast
  then have "Log w' = pre @
            [''DNS lookup: '' @ show_int (quot (Sub (t1 m) (t0 (backfill m))) 1000000) @ ''ms'',
             ''TCP connection: '' @ show_int (quot (Sub (t2 m) (t1 m)) 1000000) @ ''ms'',
             ''TLS handshake: '' @ show_int (quot (Sub (t3 m) (t2 m)) 1000000) @ ''ms'',
             ''Server processing: '' @ show_int (quot (Sub (t4 m) (t3 m)) 1000000) @ ''ms'',
             ''Content transfer: '' @ show_int (quot (Sub (t5 a) (t4 m)) 1000000) @ ''ms'',
             nl @ ''Total: '' @ show_int (quot (Sub (t5 a) (t0 (backfill m))) 1000000) @ ''ms'']
            @ (case c of Stop \<Rightarrow> [] | Follow loc \<Rightarrow> [nl])"
    by (simp add: phase_lines_def total_line_def tail_lines_def fmta_def fmtb_def Millisecond_def
        backfill_def)
  then show "\<exists>pre. Log w' = pre @
            [''DNS lookup: '' @ show_int (quot (Sub (t1 m) (t0 (backfill m))) 1000000) @ ''ms'',
             ''TCP connection: '' @ show_int (quot (Sub (t2 m) (t1 m)) 1000000) @ ''ms'',
             ''TLS handshake: '' @ show_int (quot (Sub (t3 m) (t2 m)) 1000000) @ ''ms'',
             ''Server processing: '' @ show_int (quot (Sub (t4 m) (t3 m)) 1000000) @ ''ms'',
             ''Content transfer: '' @ show_int (quot (Sub (t5 a) (t4 m)) 1000000) @ ''ms'',
             nl @ ''Total: '' @ show_int (quot (Sub (t5 a) (t0 (backfill m))) 1000000) @ ''ms'']
            @ (case c of Stop \<Rightarrow> [] | Follow loc \<Rightarrow> [nl])"
    by blast
  show "t0 (backfill m) = (if t0 m = 0 then t1 m else t0 m)"
    by (simp add: backfill_def IsZero_def)
  show "\<forall>t u. Sub t u =
            (if t - u < - (2 ^ 63) then - (2 ^ 63)
             else if 2 ^ 63 - 1 < t - u then 2 ^ 63 - 1 else t - u)"
    using Sub_cases by blast
  show "\<forall>d. quot d 1000000 = (if 0 \<le> d then d div 1000000 else - ((- d) div 1000000))"
    using quot_Millisecond by blast
qed

theorem phase_durations_witness:
  "hop sample_ext sample_request (dns_attempt ok_response) new_Response = (Inr Stop, dns_end) \<and>
   hooks (events (dns_attempt ok_response)) zero_marks new_Response = (Inr dns_marks, dns_connected) \<and>
   (\<exists>pre. Log dns_end = pre @
      [''DNS lookup: 12ms'', ''TCP connection: 17ms'', ''TLS handshake: 45ms'',
       ''Server processing: 115ms'', ''Content transfer: 9ms'', nl @ ''Total: 200ms'']) \<and>
   hop sample_ext named_request late_connect_attempt new_Response = (Inr Stop, late_connect_end) \<and>
   hooks (events late_connect_attempt) zero_marks new_Response =
     (Inr late_connect_marks, late_connect_connected) \<and>
   (\<exists>pre. Log late_connect_end = pre @
      [''DNS lookup: 12ms'', ''TCP connection: 309ms'', ''TLS handshake: -1ms'',
       ''Server processing: 9ms'', ''Content transfer: 1ms'', nl @ ''Total: 331ms'']) \<and>
   quot 12345678 1000000 = 12 \<and> quot (- 1500000) 1000000 = - 1"
proof -
  let ?a = "dns_attempt ok_response"
  have h: "hop sample_ext sample_request ?a new_Response = (Inr Stop, dns_end)"
    and k: "hooks (events ?a) zero_marks new_Response = (Inr dns_marks, dns_connected)"
    by code_simp+
  have l: "[''DNS lookup: '' @ show_int (quot (Sub (t1 dns_marks) (t0 (backfill dns_marks))) 1000000) @ ''ms'',
            ''TCP connection: '' @ show_int (quot (Sub (t2 dns_marks) (t1 dns_marks)) 1000000) @ ''ms'',
            ''TLS handshake: '' @ show_int (quot (Sub (t3 dns_marks) (t2 dns_marks)) 1000000) @ ''ms'',
            ''Server processing: '' @ show_int (quot (Sub (t4 dns_marks) (t3 dns_marks)) 1000000) @ ''ms'',
            ''Content transfer: '' @ show_int (quot (Sub (t5 ?a) (t4 dns_marks)) 1000000) @ ''ms'',
            nl @ ''Total: '' @ show_int (quot (Sub (t5 ?a) (t0 (backfill dns_marks))) 1000000) @ ''ms'']
           @ (case Stop of Stop \<Rightarrow> [] | Follow loc \<Rightarrow> [nl]) =
           [''DNS lookup: 12ms'', ''TCP connection: 17ms'', ''TLS handshake: 45ms'',
            ''Server processing: 115ms'', ''Content transfer: 9ms'', nl @ ''Total: 200ms'']"
    by code_simp
  let ?b = "late_connect_attempt" and ?m = "late_connect_marks"
  have h': "hop sample_ext named_request ?b new_Response = (Inr Stop, late_connect_end)"
    and k': "hooks (events ?b) zero_marks new_Response = (Inr ?m, late_connect_connected)"
    by code_simp+
  have l': "[''DNS lookup: '' @ show_int (quot (Sub (t1 ?m) (t0 (backfill ?m))) 1000000) @ ''ms'',
            ''TCP connection: '' @ show_int (quot (Sub (t2 ?m) (t1 ?m)) 1000000) @ ''ms'',
            ''TLS handshake: '' @ show_int (quot (Sub (t3 ?m) (t2 ?m)) 1000000) @ ''ms'',
            ''Server processing: '' @ show_int (quot (Sub (t4 ?m) (t3 ?m)) 1000000) @ ''ms'',
            ''Content transfer: '' @ show_int (quot (Sub (t5 ?b) (t4 ?m)) 1000000) @ ''ms'',
            nl @ ''Total: '' @ show_int (quot (Sub (t5 ?b) (t0 (backfill ?m))) 1000000) @ ''ms'']
           @ (case Stop of Stop \<Rightarrow> [] | Follow loc \<Rightarrow> [nl]) =
           [''DNS lookup: 12ms'', ''TCP connection: 309ms'', ''TLS handshake: -1ms'',
            ''Server processing: 9ms'', ''Content transfer: 1ms'', nl @ ''Total: 331ms'']"
    by code_simp
  note p = phase_durations [OF h k]
  note p' = phase_durations [OF h' k']
  have 1: "\<exists>pre. Log dns_end = pre @
      [''DNS lookup: 12ms'', ''TCP connection: 17ms'', ''TLS handshake: 45ms'',
       ''Server processing: 115ms'', ''Content transfer: 9ms'', nl @ ''Total: 200ms'']"
    using p [THEN conjunct1] unfolding l .
  have 2: "\<exists>pre. Log late_connect_end = pre @
      [''DNS lookup: 12ms'', ''TCP connection: 309ms'', ''TLS handshake: -1ms'',
       ''Server processing: 9ms'', ''Content transfer: 1ms'', nl @ ''Total: 331ms'']"
    using p' [THEN conjunct1] unfolding l' .
  from p have q: "\<forall>d. quot d 1000000 = (if 0 \<le> d then d div 1000000 else - ((- d) div 1000000))"
    by (elim conjE)
  have 3: "quot 12345678 1000000 = 12" using q [rule_format, of 12345678] by simp
  have 4: "quot (- 1500000) 1000000 = - 1" using q [rule_format, of "- 1500000"] by simp
  from h k 1 h' k' 2 3 4 show ?thesis by (intro conjI)
qed

section \<open>The total and the sum of the phases\<close>

text \<open>
  C5, as the specification states it, says that for every completed attempt the
  number printed for the total is at least the sum of the five numbers printed for
  the phases. That needs the instants to be in the order of the lifecycle: when the
  hook of a second \<^verbatim>\<open>ConnectDone\<close> runs 0.5 ms after the hook of \<^verbatim>\<open>GotConn\<close>, the
  phases print 12, 309, 0, 10 and 0, which add up to 331, and the total prints 330.
\<close>

theorem total_below_phases_counterexample:
  "hop sample_ext named_request racing_attempt new_Response = (Inr Stop, racing_end) \<and>
   drop 5 (Log racing_end) =
     [''DNS lookup: '' @ show_int 12 @ ''ms'', ''TCP connection: '' @ show_int 309 @ ''ms'',
      ''TLS handshake: '' @ show_int 0 @ ''ms'', ''Server processing: '' @ show_int 10 @ ''ms'',
      ''Content transfer: '' @ show_int 0 @ ''ms'', nl @ ''Total: '' @ show_int 330 @ ''ms''] \<and>
   (330 :: int) < 12 + 309 + 0 + 10 + 0"
  by code_simp

text \<open>
  C5, amended. For every attempt that ends without a panic and whose instants are in
  the order of the lifecycle (\<open>t0\<close> after the backfill, then \<open>t1\<close>, \<open>t2\<close>, \<open>t3\<close>, \<open>t4\<close>
  and \<open>t5\<close>, the whole within the range of a duration), the five durations add up to
  the total duration exactly, and the number of milliseconds printed for the total is
  at least the sum of the five numbers printed for the phases and exceeds it by at
  most 4, the loss of the five roundings.
\<close>

theorem total_bounds_phases:
  assumes "hop X r a w = (Inr c, w')" and "hooks (events a) zero_marks w = (Inr m, w1)"
    and "chronological (backfill m) (t5 a)"
  shows "\<exists>pre p1 p2 p3 p4 p5 total.
     Log w' = pre @
       [''DNS lookup: '' @ show_int p1 @ ''ms'',
        ''TCP connection: '' @ show_int p2 @ ''ms'',
        ''TLS handshake: '' @ show_int p3 @ ''ms'',
        ''Server processing: '' @ show_int p4 @ ''ms'',
        ''Content transfer: '' @ show_int p5 @ ''ms'',
        nl @ ''Total: '' @ show_int total @ ''ms'']
       @ (case c of Stop \<Rightarrow> [] | Follow loc \<Rightarrow> [nl]) \<and>
     p1 + p2 + p3 + p4 + p5 \<le> total \<and> total \<le> p1 + p2 + p3 + p4 + p5 + 4 \<and>
     Sub (t1 (backfill m)) (t0 (backfill m)) + Sub (t2 (backfill m)) (t1 (backfill m))
       + Sub (t3 (backfill m)) (t2 (backfill m)) + Sub (t4 (backfill m)) (t3 (backfill m))
       + Sub (t5 a) (t4 (backfill m)) = Sub (t5 a) (t0 (backfill m))"
proof -
  define b where "b = backfill m"
  define d1 where "d1 = Sub (t1 b) (t0 b)"
  define d2 where "d2 = Sub (t2 b) (t1 b)"
  define d3 where "d3 = Sub (t3 b) (t2 b)"
  define d4 where "d4 = Sub (t4 b) (t3 b)"
  define d5 where "d5 = Sub (t5 a) (t4 b)"
  define d where "d = Sub (t5 a) (t0 b)"
  have ch: "chronological b (t5 a)" using assms(3) by (simp add: b_def)
  note su = chronological_Sub [OF ch]
  have nn: "0 \<le> d1" "0 \<le> d2" "0 \<le> d3" "0 \<le> d4" "0 \<le> d5" "0 \<le> d"
    using ch unfolding d1_def d2_def d3_def d4_def d5_def d_def su
    by (simp_all add: chronological_def)
  have tel: "d1 + d2 + d3 + d4 + d5 = d"
    unfolding d1_def d2_def d3_def d4_def d5_def d_def su by simp
  have q: "quot d1 Millisecond = d1 div 1000000" "quot d2 Millisecond = d2 div 1000000"
    "quot d3 Millisecond = d3 div 1000000" "quot d4 Millisecond = d4 div 1000000"
    "quot d5 Millisecond = d5 div 1000000" "quot d Millisecond = d div 1000000"
    using nn by (simp_all add: quot_nonneg)
  from floor_sum_5 [of d1 d2 d3 d4 d5]
  have bounds: "quot d1 Millisecond + quot d2 Millisecond + quot d3 Millisecond
                  + quot d4 Millisecond + quot d5 Millisecond \<le> quot d Millisecond"
    "quot d Millisecond \<le> quot d1 Millisecond + quot d2 Millisecond + quot d3 Millisecond
                  + quot d4 Millisecond + quot d5 Millisecond + 4"
    unfolding q tel by simp_all
  from hop_duration_lines [OF assms(1,2)] obtain pre where
    "Log w' = pre @ phase_lines b (t5 a) @ [total_line b (t5 a)] @ tail_lines c"
    unfolding b_def by blast
  then have "Log w' = pre @
       [''DNS lookup: '' @ show_int (quot d1 Millisecond) @ ''ms'',
        ''TCP connection: '' @ show_int (quot d2 Millisecond) @ ''ms'',
        ''TLS handshake: '' @ show_int (quot d3 Millisecond) @ ''ms'',
        ''Server processing: '' @ show_int (quot d4 Millisecond) @ ''ms'',
        ''Content transfer: '' @ show_int (quot d5 Millisecond) @ ''ms'',
        nl @ ''Total: '' @ show_int (quot d Millisecond) @ ''ms'']
       @ (case c of Stop \<Rightarrow> [] | Follow loc \<Rightarrow> [nl])"
    by (simp add: phase_lines_def total_line_def tail_lines_def fmta_def fmtb_def
        d1_def d2_def d3_def d4_def d5_def d_def)
  with bounds tel show ?thesis
    unfolding d1_def d2_def d3_def d4_def d5_def d_def b_def by blast
qed

theorem total_bounds_phases_witness:
  "hop sample_ext sample_request (dns_attempt ok_response) new_Response = (Inr Stop, dns_end) \<and>
   hooks (events (dns_attempt ok_response)) zero_marks new_Response = (Inr dns_marks, dns_connected) \<and>
   chronological (backfill dns_marks) (t5 (dns_attempt ok_response)) \<and>
   (\<exists>pre p1 p2 p3 p4 p5 total.
     Log dns_end = pre @
       [''DNS lookup: '' @ show_int p1 @ ''ms'',
        ''TCP connection: '' @ show_int p2 @ ''ms'',
        ''TLS handshake: '' @ show_int p3 @ ''ms'',
        ''Server processing: '' @ show_int p4 @ ''ms'',
        ''Content transfer: '' @ show_int p5 @ ''ms'',
        nl @ ''Total: '' @ show_int total @ ''ms'']
       @ (case Stop of Stop \<Rightarrow> [] | Follow loc \<Rightarrow> [nl]) \<and>
     p1 + p2 + p3 + p4 + p5 \<le> total \<and> total \<le> p1 + p2 + p3 + p4 + p5 + 4)"
proof -
  let ?a = "dns_attempt ok_response"
  have h: "hop sample_ext sample_request ?a new_Response = (Inr Stop, dns_end)"
    and k: "hooks (events ?a) zero_marks new_Response = (Inr dns_marks, dns_connected)"
    and c: "chronological (backfill dns_marks) (t5 ?a)"
    by code_simp+
  from total_bounds_phases [OF h k c] h k c show ?thesis by blast
qed

section \<open>An attempt without DNS resolution\<close>

text \<open>
  C6. An attempt ends without a panic and the hook of the DNS start has not run (the
  target is a literal IP address). Then \<open>t0\<close> is still unset after the events and the
  backfill gives it the value of \<open>t1\<close>, so that the DNS lookup prints as \<^verbatim>\<open>0ms\<close>; when
  the events begin with the start of a connection and the hook of the DNS end does not
  run either, \<open>t1\<close> is the instant of that start; and when the remaining instants are
  in the order of the lifecycle, no number printed for a phase or for the total is
  negative.
\<close>

theorem dns_skipped_backfill:
  assumes "hop X r a w = (Inr c, w')" and "hooks (events a) zero_marks w = (Inr m, w1)"
    and "\<not> dns_started (events a)"
  shows "t0 m = 0 \<and> t0 (backfill m) = t1 m \<and>
     (\<exists>pre. Log w' = pre @
        [''DNS lookup: 0ms'',
         ''TCP connection: '' @ fmta (Sub (t2 m) (t1 m)),
         ''TLS handshake: '' @ fmta (Sub (t3 m) (t2 m)),
         ''Server processing: '' @ fmta (Sub (t4 m) (t3 m)),
         ''Content transfer: '' @ fmta (Sub (t5 a) (t4 m)),
         nl @ ''Total: '' @ fmtb (Sub (t5 a) (t1 m))]
        @ (case c of Stop \<Rightarrow> [] | Follow loc \<Rightarrow> [nl])) \<and>
     (\<forall>cs es. events a = ConnectStart cs # es \<and> cs \<noteq> 0 \<and> \<not> dns_done es \<longrightarrow> t1 m = cs) \<and>
     (t1 m \<le> t2 m \<and> t2 m \<le> t3 m \<and> t3 m \<le> t4 m \<and> t4 m \<le> t5 a \<longrightarrow>
        0 \<le> quot (Sub (t2 m) (t1 m)) Millisecond \<and> 0 \<le> quot (Sub (t3 m) (t2 m)) Millisecond \<and>
        0 \<le> quot (Sub (t4 m) (t3 m)) Millisecond \<and> 0 \<le> quot (Sub (t5 a) (t4 m)) Millisecond \<and>
        0 \<le> quot (Sub (t5 a) (t1 m)) Millisecond)"
proof (intro conjI)
  from hooks_keep_t0 [OF assms(3) assms(2)] show z: "t0 m = 0" by (simp add: zero_marks_def)
  then show b0: "t0 (backfill m) = t1 m" by (simp add: backfill_def IsZero_def)
  have b: "backfill m = m\<lparr>t0 := t1 m\<rparr>" using z by (simp add: backfill_def IsZero_def)
  from hop_duration_lines [OF assms(1,2)] obtain pre where
    "Log w' = pre @ phase_lines (backfill m) (t5 a) @ [total_line (backfill m) (t5 a)] @ tail_lines c"
    by blast
  then have "Log w' = pre @
        [''DNS lookup: 0ms'',
         ''TCP connection: '' @ fmta (Sub (t2 m) (t1 m)),
         ''TLS handshake: '' @ fmta (Sub (t3 m) (t2 m)),
         ''Server processing: '' @ fmta (Sub (t4 m) (t3 m)),
         ''Content transfer: '' @ fmta (Sub (t5 a) (t4 m)),
         nl @ ''Total: '' @ fmtb (Sub (t5 a) (t1 m))]
        @ (case c of Stop \<Rightarrow> [] | Follow loc \<Rightarrow> [nl])"
    unfolding b by (simp add: phase_lines_def total_line_def tail_lines_def Sub_self fmta_zero)
  then show "\<exists>pre. Log w' = pre @
        [''DNS lookup: 0ms'',
         ''TCP connection: '' @ fmta (Sub (t2 m) (t1 m)),
         ''TLS handshake: '' @ fmta (Sub (t3 m) (t2 m)),
         ''Server processing: '' @ fmta (Sub (t4 m) (t3 m)),
         ''Content transfer: '' @ fmta (Sub (t5 a) (t4 m)),
         nl @ ''Total: '' @ fmtb (Sub (t5 a) (t1 m))]
        @ (case c of Stop \<Rightarrow> [] | Follow loc \<Rightarrow> [nl])"
    by blast
  show "\<forall>cs es. events a = ConnectStart cs # es \<and> cs \<noteq> 0 \<and> \<not> dns_done es \<longrightarrow> t1 m = cs"
  proof (intro allI impI)
    fix cs es
    assume e: "events a = ConnectStart cs # es \<and> cs \<noteq> 0 \<and> \<not> dns_done es"
    with assms(2) have "hooks es (zero_marks\<lparr>t1 := cs\<rparr>) w = (Inr m, w1)"
      by (simp add: zero_marks_def IsZero_def)
    from hooks_keep_t1 [OF _ _ this] e show "t1 m = cs" by simp
  qed
  show "t1 m \<le> t2 m \<and> t2 m \<le> t3 m \<and> t3 m \<le> t4 m \<and> t4 m \<le> t5 a \<longrightarrow>
        0 \<le> quot (Sub (t2 m) (t1 m)) Millisecond \<and> 0 \<le> quot (Sub (t3 m) (t2 m)) Millisecond \<and>
        0 \<le> quot (Sub (t4 m) (t3 m)) Millisecond \<and> 0 \<le> quot (Sub (t5 a) (t4 m)) Millisecond \<and>
        0 \<le> quot (Sub (t5 a) (t1 m)) Millisecond"
    by (simp add: quot_Millisecond_nonneg Sub_nonneg)
qed

theorem dns_skipped_backfill_witness:
  "hop sample_ext sample_request (ip_attempt bare_redirect_response) used_Response = (Inr Stop, bare_end) \<and>
   hooks (events (ip_attempt bare_redirect_response)) zero_marks used_Response =
     (Inr ip_marks, ip_connected) \<and>
   \<not> dns_started (events (ip_attempt bare_redirect_response)) \<and>
   t0 ip_marks = 0 \<and> t0 (backfill ip_marks) = t1 ip_marks \<and> t1 ip_marks = 1000000000 \<and>
   (\<exists>pre. Log bare_end = pre @
      [''DNS lookup: 0ms'', ''TCP connection: 2ms'', ''TLS handshake: 0ms'',
       ''Server processing: 7ms'', ''Content transfer: 1ms'', nl @ ''Total: 11ms'']) \<and>
   0 \<le> quot (Sub (t2 ip_marks) (t1 ip_marks)) Millisecond"
proof -
  let ?a = "ip_attempt bare_redirect_response"
  have h: "hop sample_ext sample_request ?a used_Response = (Inr Stop, bare_end)"
    and k: "hooks (events ?a) zero_marks used_Response = (Inr ip_marks, ip_connected)"
    and n: "\<not> dns_started (events ?a)"
    by code_simp+
  have e: "events ?a = ConnectStart 1000000000 #
             [ConnectDone ''192.0.2.1:80'' None 1002500000, GotConn 1002600000,
              GotFirstResponseByte 1010000000] \<and>
           (1000000000 :: int) \<noteq> 0 \<and>
           \<not> dns_done [ConnectDone ''192.0.2.1:80'' None 1002500000, GotConn 1002600000,
              GotFirstResponseByte 1010000000]"
    by code_simp
  have o: "t1 ip_marks \<le> t2 ip_marks \<and> t2 ip_marks \<le> t3 ip_marks \<and> t3 ip_marks \<le> t4 ip_marks \<and>
           t4 ip_marks \<le> t5 ?a"
    by code_simp
  have l: "[''DNS lookup: 0ms'',
            ''TCP connection: '' @ fmta (Sub (t2 ip_marks) (t1 ip_marks)),
            ''TLS handshake: '' @ fmta (Sub (t3 ip_marks) (t2 ip_marks)),
            ''Server processing: '' @ fmta (Sub (t4 ip_marks) (t3 ip_marks)),
            ''Content transfer: '' @ fmta (Sub (t5 ?a) (t4 ip_marks)),
            nl @ ''Total: '' @ fmtb (Sub (t5 ?a) (t1 ip_marks))]
           @ (case Stop of Stop \<Rightarrow> [] | Follow loc \<Rightarrow> [nl]) =
           [''DNS lookup: 0ms'', ''TCP connection: 2ms'', ''TLS handshake: 0ms'',
            ''Server processing: 7ms'', ''Content transfer: 1ms'', nl @ ''Total: 11ms'']"
    by code_simp
  note p = dns_skipped_backfill [OF h k n]
  from p have z: "t0 ip_marks = 0" and b: "t0 (backfill ip_marks) = t1 ip_marks" by blast+
  from p e have s: "t1 ip_marks = 1000000000" by blast
  from p have "\<exists>pre. Log bare_end = pre @
      [''DNS lookup: 0ms'', ''TCP connection: 2ms'', ''TLS handshake: 0ms'',
       ''Server processing: 7ms'', ''Content transfer: 1ms'', nl @ ''Total: 11ms'']"
    unfolding l by blast
  moreover from p o have "0 \<le> quot (Sub (t2 ip_marks) (t1 ip_marks)) Millisecond" by blast
  ultimately show ?thesis using h k n z b s by blast
qed

section \<open>The server name of the TLS configuration\<close>

text \<open>
  C7, as the specification states it, takes the server name to be the Host without its
  port suffix when it has one, and the Host as it is otherwise. The code takes the host
  part that \<^verbatim>\<open>net.SplitHostPort\<close> returns, which for a bracketed IPv6 address is the
  address without its brackets: for the target \<^verbatim>\<open>https://[::1]:8443/\<close> the Host without
  its port suffix is \<^verbatim>\<open>[::1]\<close> and the server name is \<^verbatim>\<open>::1\<close>.
\<close>

theorem sni_port_counterexample:
  "cook sample_ext (https_request ''[::1]:8443'') = Inr (https_wire ''[::1]:8443'') \<and>
   transport sample_ext (https_request ''[::1]:8443'') (https_wire ''[::1]:8443'') None =
     Inr (Some \<lparr>ServerName = ''::1'', InsecureSkipVerify = False, Certificates = []\<rparr>) \<and>
   strip_port (Host (https_wire ''[::1]:8443'')) = ''[::1]'' \<and>
   server_name (https_wire ''[::1]:8443'') \<noteq> strip_port (Host (https_wire ''[::1]:8443''))"
  by code_simp

text \<open>
  C7, amended. For an https request the server name of the TLS configuration is
  computed from the Host of the wire request: it is the Host as it is when the Host has
  no colon; the part before the colon when the Host is a host and a port separated by
  one colon (neither holding a colon or a bracket); and the address between the
  brackets when the Host is a bracketed address followed by a colon and a port. In
  every case it is the Host as it is, or the Host without a final \<^verbatim>\<open>:port\<close>, or the
  Host without its brackets and its final \<^verbatim>\<open>:port\<close>. The targets
  \<^verbatim>\<open>https://example.com:8443/\<close> and \<^verbatim>\<open>https://example.com/\<close>, with no Host line among
  the headers, both give the server name \<^verbatim>\<open>example.com\<close>.
\<close>

theorem sni_from_host:
  "(url_Scheme (URL r) = ''https'' \<and> transport X r req h2 = Inr tr \<longrightarrow>
      (\<exists>cfg. tr = Some cfg \<and> ServerName cfg = server_name req)) \<and>
   (CHR '':'' \<notin> set (Host req) \<longrightarrow> server_name req = Host req) \<and>
   (\<forall>h p. Host req = h @ '':'' @ p \<and> set h \<inter> {CHR '':'', CHR ''['', CHR '']''} = {} \<and>
      set p \<inter> {CHR '':'', CHR ''['', CHR '']''} = {} \<longrightarrow> server_name req = h) \<and>
   (\<forall>h p. Host req = ''['' @ h @ '']:'' @ p \<and> set h \<inter> {CHR ''['', CHR '']''} = {} \<and>
      set p \<inter> {CHR '':'', CHR ''['', CHR '']''} = {} \<longrightarrow> server_name req = h) \<and>
   (server_name req = Host req \<or> (\<exists>p. Host req = server_name req @ '':'' @ p) \<or>
      (\<exists>p. Host req = ''['' @ server_name req @ '']:'' @ p)) \<and>
   (url_Scheme (URL r) = ''https'' \<and> url_Host (URL r) = ''example.com:8443'' \<and>
      host_values X (HTTPHeaders r) = [] \<and> cook X r = Inr req \<and> transport X r req h2 = Inr tr \<longrightarrow>
      (\<exists>cfg. tr = Some cfg \<and> ServerName cfg = ''example.com'')) \<and>
   (url_Scheme (URL r) = ''https'' \<and> url_Host (URL r) = ''example.com'' \<and>
      host_values X (HTTPHeaders r) = [] \<and> cook X r = Inr req \<and> transport X r req h2 = Inr tr \<longrightarrow>
      (\<exists>cfg. tr = Some cfg \<and> ServerName cfg = ''example.com''))"
proof (intro conjI impI allI)
  assume "url_Scheme (URL r) = ''https'' \<and> transport X r req h2 = Inr tr"
  then show "\<exists>cfg. tr = Some cfg \<and> ServerName cfg = server_name req"
    by (elim conjE) (rule transport_https)
next
  assume "CHR '':'' \<notin> set (Host req)"
  then show "server_name req = Host req" by (rule server_name_no_colon)
next
  fix h p
  assume "Host req = h @ '':'' @ p \<and> set h \<inter> {CHR '':'', CHR ''['', CHR '']''} = {} \<and>
      set p \<inter> {CHR '':'', CHR ''['', CHR '']''} = {}"
  then show "server_name req = h" by (elim conjE) (rule server_name_host_port)
next
  fix h p
  assume "Host req = ''['' @ h @ '']:'' @ p \<and> set h \<inter> {CHR ''['', CHR '']''} = {} \<and>
      set p \<inter> {CHR '':'', CHR ''['', CHR '']''} = {}"
  then show "server_name req = h" by (elim conjE) (rule server_name_bracketed)
next
  show "server_name req = Host req \<or> (\<exists>p. Host req = server_name req @ '':'' @ p) \<or>
      (\<exists>p. Host req = ''['' @ server_name req @ '']:'' @ p)"
    by (rule server_name_shape)
next
  assume a: "url_Scheme (URL r) = ''https'' \<and> url_Host (URL r) = ''example.com:8443'' \<and>
      host_values X (HTTPHeaders r) = [] \<and> cook X r = Inr req \<and> transport X r req h2 = Inr tr"
  then have s: "url_Scheme (URL r) = ''https''" and u: "url_Host (URL r) = ''example.com:8443''"
    and n: "host_values X (HTTPHeaders r) = []" and c: "cook X r = Inr req"
    and t: "transport X r req h2 = Inr tr"
    by simp_all
  have "Host req = ''example.com:8443''"
    using cook_Host [OF c n] unfolding u by (simp only: removeEmptyPort_examples)
  then have "server_name req = ''example.com''" by (rule server_name_example_port)
  with transport_https [OF s t]
  show "\<exists>cfg. tr = Some cfg \<and> ServerName cfg = ''example.com''" by simp
next
  assume a: "url_Scheme (URL r) = ''https'' \<and> url_Host (URL r) = ''example.com'' \<and>
      host_values X (HTTPHeaders r) = [] \<and> cook X r = Inr req \<and> transport X r req h2 = Inr tr"
  then have s: "url_Scheme (URL r) = ''https''" and u: "url_Host (URL r) = ''example.com''"
    and n: "host_values X (HTTPHeaders r) = []" and c: "cook X r = Inr req"
    and t: "transport X r req h2 = Inr tr"
    by simp_all
  have "Host req = ''example.com''"
    using cook_Host [OF c n] unfolding u by (simp only: removeEmptyPort_examples)
  then have "server_name req = ''example.com''" by (rule server_name_example)
  with transport_https [OF s t]
  show "\<exists>cfg. tr = Some cfg \<and> ServerName cfg = ''example.com''" by simp
qed

theorem sni_from_host_witness:
  "cook sample_ext (https_request ''example.com:8443'') = Inr (https_wire ''example.com:8443'') \<and>
   transport sample_ext (https_request ''example.com:8443'') (https_wire ''example.com:8443'') None =
     Inr (Some \<lparr>ServerName = ''example.com'', InsecureSkipVerify = False, Certificates = []\<rparr>) \<and>
   server_name (https_wire ''example.com:8443'') = ''example.com'' \<and>
   cook sample_ext (https_request ''example.com'') = Inr (https_wire ''example.com'') \<and>
   transport sample_ext (https_request ''example.com'') (https_wire ''example.com'') None =
     Inr (Some \<lparr>ServerName = ''example.com'', InsecureSkipVerify = False, Certificates = []\<rparr>) \<and>
   server_name (https_wire ''example.com'') = Host (https_wire ''example.com'') \<and>
   (\<exists>cfg. Some \<lparr>ServerName = ''example.com'', InsecureSkipVerify = False, Certificates = []\<rparr> = Some cfg \<and>
      ServerName cfg = server_name (https_wire ''example.com:8443'')) \<and>
   (\<exists>cfg. Some \<lparr>ServerName = ''example.com'', InsecureSkipVerify = False, Certificates = []\<rparr> = Some cfg \<and>
      ServerName cfg = ''example.com'') \<and>
   server_name (https_wire ''[::1]:8443'') = ''::1''"
proof -
  let ?r = "https_request ''example.com:8443''" and ?q = "https_wire ''example.com:8443''"
  let ?r' = "https_request ''example.com''" and ?q' = "https_wire ''example.com''"
  let ?cfg = "\<lparr>ServerName = ''example.com'', InsecureSkipVerify = False, Certificates = []\<rparr>"
  have c: "cook sample_ext ?r = Inr ?q"
    and t: "transport sample_ext ?r ?q None = Inr (Some ?cfg)"
    and st: "url_Scheme (URL ?r) = ''https'' \<and> transport sample_ext ?r ?q None = Inr (Some ?cfg)"
    and e: "url_Scheme (URL ?r) = ''https'' \<and> url_Host (URL ?r) = ''example.com:8443'' \<and>
            host_values sample_ext (HTTPHeaders ?r) = [] \<and> cook sample_ext ?r = Inr ?q \<and>
            transport sample_ext ?r ?q None = Inr (Some ?cfg)"
    and f: "Host ?q = ''example.com'' @ '':'' @ ''8443'' \<and>
            set ''example.com'' \<inter> {CHR '':'', CHR ''['', CHR '']''} = {} \<and>
            set ''8443'' \<inter> {CHR '':'', CHR ''['', CHR '']''} = {}"
    by code_simp+
  have c': "cook sample_ext ?r' = Inr ?q'"
    and t': "transport sample_ext ?r' ?q' None = Inr (Some ?cfg)"
    and e': "url_Scheme (URL ?r') = ''https'' \<and> url_Host (URL ?r') = ''example.com'' \<and>
            host_values sample_ext (HTTPHeaders ?r') = [] \<and> cook sample_ext ?r' = Inr ?q' \<and>
            transport sample_ext ?r' ?q' None = Inr (Some ?cfg)"
    and k': "CHR '':'' \<notin> set (Host ?q')"
    by code_simp+
  note a = sni_from_host [of ?r sample_ext ?q None "Some ?cfg"]
  note b = sni_from_host [of ?r' sample_ext ?q' None "Some ?cfg"]
  have 1: "\<exists>cfg. Some ?cfg = Some cfg \<and> ServerName cfg = server_name ?q"
    by (rule a [THEN conjunct1, rule_format]) (rule st)
  have 3: "server_name ?q = ''example.com''"
    by (rule a [THEN conjunct2, THEN conjunct2, THEN conjunct1, rule_format]) (rule f)
  have 5: "\<exists>cfg. Some ?cfg = Some cfg \<and> ServerName cfg = ''example.com''"
    by (rule a [THEN conjunct2, THEN conjunct2, THEN conjunct2, THEN conjunct2, THEN conjunct2,
          THEN conjunct1, rule_format]) (rule e)
  have 2: "server_name ?q' = Host ?q'"
    by (rule b [THEN conjunct2, THEN conjunct1, rule_format]) (rule k')
  have 6: "\<exists>cfg. Some ?cfg = Some cfg \<and> ServerName cfg = ''example.com''"
    by (rule b [THEN conjunct2, THEN conjunct2, THEN conjunct2, THEN conjunct2, THEN conjunct2,
          THEN conjunct2, rule_format]) (rule e')
  have g: "Host (https_wire ''[::1]:8443'') = ''['' @ ''::1'' @ '']:'' @ ''8443'' \<and>
            set ''::1'' \<inter> {CHR ''['', CHR '']''} = {} \<and>
            set ''8443'' \<inter> {CHR '':'', CHR ''['', CHR '']''} = {}"
    by code_simp
  have 4: "server_name (https_wire ''[::1]:8443'') = ''::1''"
    by (rule sni_from_host [of ?r sample_ext "https_wire ''[::1]:8443''" None "Some ?cfg",
          THEN conjunct2, THEN conjunct2, THEN conjunct2, THEN conjunct1, rule_format]) (rule g)
  from c t 3 c' t' 2 1 5 4 show ?thesis by (intro conjI)
qed

section \<open>The headers and the body of the wire request\<close>

text \<open>
  C8. When \<^verbatim>\<open>cook\<close> builds the wire request: the Host of the request is the value of
  the last header line whose key equals \<^verbatim>\<open>host\<close> under case folding, and the host of
  the URL when there is no such line; for every header name, the values of the wire
  request under that name are the values of the other header lines with that name, in
  the order given, so that no line with the key \<^verbatim>\<open>host\<close> is among them, none is
  replaced and repeated keys keep all their values; and the body is a reader of the
  body string, an empty reader (not a missing one) for the empty string.
\<close>

theorem cook_headers:
  assumes "cook X r = Inr req"
  shows "Host req =
           (if host_values X (HTTPHeaders r) = [] then removeEmptyPort (url_Host (URL r))
            else last (host_values X (HTTPHeaders r))) \<and>
         (\<forall>c. values_of (req_Header req) c = plain_values X (HTTPHeaders r) c) \<and>
         distinct (map fst (req_Header req)) \<and>
         Body req = createBody (PostBody r) \<and> createBody (PostBody r) = Some (PostBody r) \<and>
         (PostBody r = [] \<longrightarrow> Body req = Some [])"
  using assms
proof (cases rule: cook_Inr)
  case (1 req0)
  have "values_of (req_Header req0) c = []" for c using 1(4) by (simp add: values_of_def)
  then have v: "\<forall>c. values_of (req_Header req) c = plain_values X (HTTPHeaders r) c"
    using 1(2) by (simp add: set_headers_values)
  have d: "distinct (map fst (req_Header req))"
    unfolding 1(2) using 1(4) by (intro set_headers_distinct) simp
  have b: "Body req = Some (PostBody r)" using 1(2,5) set_headers_fields by simp
  have h: "Host req =
           (if host_values X (HTTPHeaders r) = [] then removeEmptyPort (url_Host (URL r))
            else last (host_values X (HTTPHeaders r)))"
    using 1(2,3) by (simp add: set_headers_Host)
  from h v d b show ?thesis by (simp add: createBody_def)
qed

theorem cook_headers_witness:
  "cook sample_ext header_request = Inr cooked_header_request \<and>
   host_values sample_ext (HTTPHeaders header_request) = [''a.example'', ''b.example''] \<and>
   Host cooked_header_request = ''b.example'' \<and>
   values_of (req_Header cooked_header_request) ''X-Foo'' = [''1'', ''2''] \<and>
   values_of (req_Header cooked_header_request) ''Host'' = [] \<and>
   PostBody header_request = [] \<and> Body cooked_header_request = Some []"
proof -
  have c: "cook sample_ext header_request = Inr cooked_header_request"
    and h: "host_values sample_ext (HTTPHeaders header_request) = [''a.example'', ''b.example'']"
    and x: "plain_values sample_ext (HTTPHeaders header_request) ''X-Foo'' = [''1'', ''2'']"
    and y: "plain_values sample_ext (HTTPHeaders header_request) ''Host'' = []"
    and p: "PostBody header_request = []"
    by code_simp+
  note t = cook_headers [OF c]
  from t h have "Host cooked_header_request = ''b.example''" by simp
  moreover from t x have "values_of (req_Header cooked_header_request) ''X-Foo'' = [''1'', ''2'']"
    by simp
  moreover from t y have "values_of (req_Header cooked_header_request) ''Host'' = []"
    by simp
  moreover from t p have "Body cooked_header_request = Some []" by blast
  ultimately show ?thesis using c h p by blast
qed

section \<open>The redirect counter\<close>




section \<open>A fatal end keeps the log\<close>

text \<open>
  C10. When a trace ends by a fatal error, whatever its cause, the Response is not
  rolled back: its log at the fatal point is the log it had when the trace began
  followed by every line reported up to that point, in the order of the reports, so
  the log before the trace is a prefix of it. For the attempt in which the panic
  happens, the log at the panic is the log before the attempt followed by the lines
  that the attempt has reported: none for a panic before the request is sent; the
  line of every connection made for a panic in a connection or on the error of the
  response; the whole report of the response for a panic in the handling of the
  redirect. Once the request is sent, the lines of the connections made are in the log
  at the panic.
\<close>

theorem fatal_keeps_log:
  "(visit X r as w = Some (Inl msg, w', rest) \<longrightarrow>
      Log w' = Log w @ trace_reported X r as w \<and> prefix (Log w) (Log w')) \<and>
   (hop X r a w = (Inl msg, w1) \<longrightarrow> Log w1 = Log w @ reported X r a) \<and>
   (hop X r a w = (Inl msg, w1) \<and> cook X r = Inr req \<and>
    transport X r req (h2_error a) = Inr tr \<longrightarrow>
      prefix (Log w @ connected (events a)) (Log w1))"
proof (intro conjI impI)
  assume v: "visit X r as w = Some (Inl msg, w', rest)"
  then show "Log w' = Log w @ trace_reported X r as w" by (rule visit_reported)
  from v show "prefix (Log w) (Log w')" by (rule visit_prefix)
next
  assume "hop X r a w = (Inl msg, w1)"
  from hop_reported [OF this] show "Log w1 = Log w @ reported X r a" by simp
next
  assume "hop X r a w = (Inl msg, w1) \<and> cook X r = Inr req \<and>
    transport X r req (h2_error a) = Inr tr"
  then have h: "hop X r a w = (Inl msg, w1)" and c: "cook X r = Inr req"
    and t: "transport X r req (h2_error a) = Inr tr"
    by simp_all
  from hop_reported [OF h] have "Log w1 = Log w @ reported X r a" by simp
  moreover from c t obtain rest where "reported X r a = connected (events a) @ rest"
    by (simp add: reported_def)
  ultimately have "Log w1 = (Log w @ connected (events a)) @ rest" by simp
  then show "prefix (Log w @ connected (events a)) (Log w1)" by (rule prefixI)
qed

theorem fatal_keeps_log_witness:
  "visit sample_ext sample_request [ip_attempt redirect_response, reset_attempt] used_Response =
     Some (Inl ''Failed to read response: Get http://192.0.2.1/next: EOF'', reset_end, []) \<and>
   Log reset_end = Log used_Response
     @ trace_reported sample_ext sample_request [ip_attempt redirect_response, reset_attempt]
         used_Response \<and>
   prefix (Log used_Response) (Log reset_end) \<and>
   Log reset_end =
     [''earlier line'', ''Connected to 192.0.2.1:80'' @ nl, ''HTTP/1.1 302 Found'',
      ''Location: /next'', ''DNS lookup: 0ms'', ''TCP connection: 2ms'', ''TLS handshake: 0ms'',
      ''Server processing: 7ms'', ''Content transfer: 1ms'', nl @ ''Total: 11ms'', nl,
      ''Connected to 192.0.2.1:80'' @ nl] \<and>
   hop sample_ext sample_request reset_attempt used_Response =
     (Inl ''Failed to read response: Get http://192.0.2.1/next: EOF'', ip_connected) \<and>
   Log ip_connected = Log used_Response @ reported sample_ext sample_request reset_attempt \<and>
   reported sample_ext sample_request reset_attempt = [''Connected to 192.0.2.1:80'' @ nl] \<and>
   cook sample_ext sample_request = Inr sample_wire \<and>
   prefix (Log used_Response @ connected (events reset_attempt)) (Log ip_connected) \<and>
   connected (events reset_attempt) = [''Connected to 192.0.2.1:80'' @ nl] \<and>
   hop sample_ext strict_request (ip_attempt redirect_response) used_Response =
     (Inl ''Maximum number of redirects (0) followed'', strict_end) \<and>
   Log strict_end =
     Log used_Response @ reported sample_ext strict_request (ip_attempt redirect_response) \<and>
   reported sample_ext strict_request (ip_attempt redirect_response) =
     [''Connected to 192.0.2.1:80'' @ nl, ''HTTP/1.1 302 Found'', ''Location: /next'',
      ''DNS lookup: 0ms'', ''TCP connection: 2ms'', ''TLS handshake: 0ms'',
      ''Server processing: 7ms'', ''Content transfer: 1ms'', nl @ ''Total: 11ms''] \<and>
   hop sample_ext sample_request refused_attempt used_Response =
     (Inl ''Unable to connect to host 192.0.2.1:80: connection refused'', used_Response) \<and>
   Log used_Response = Log used_Response @ reported sample_ext sample_request refused_attempt"
proof -
  let ?eof = "''Failed to read response: Get http://192.0.2.1/next: EOF''"
  have v: "visit sample_ext sample_request [ip_attempt redirect_response, reset_attempt]
      used_Response = Some (Inl ?eof, reset_end, [])"
    by code_simp
  have e: "Log reset_end =
     [''earlier line'', ''Connected to 192.0.2.1:80'' @ nl, ''HTTP/1.1 302 Found'',
      ''Location: /next'', ''DNS lookup: 0ms'', ''TCP connection: 2ms'', ''TLS handshake: 0ms'',
      ''Server processing: 7ms'', ''Content transfer: 1ms'', nl @ ''Total: 11ms'', nl,
      ''Connected to 192.0.2.1:80'' @ nl]"
    by code_simp
  have h: "hop sample_ext sample_request reset_attempt used_Response = (Inl ?eof, ip_connected)"
    by code_simp
  have re: "reported sample_ext sample_request reset_attempt = [''Connected to 192.0.2.1:80'' @ nl]"
    by code_simp
  have ck: "cook sample_ext sample_request = Inr sample_wire"
    by code_simp
  have tr: "transport sample_ext sample_request sample_wire (h2_error reset_attempt) =
      Inr None"
    by code_simp
  have co: "connected (events reset_attempt) = [''Connected to 192.0.2.1:80'' @ nl]"
    by code_simp
  have s: "hop sample_ext strict_request (ip_attempt redirect_response) used_Response =
     (Inl ''Maximum number of redirects (0) followed'', strict_end)"
    by code_simp
  have rs: "reported sample_ext strict_request (ip_attempt redirect_response) =
     [''Connected to 192.0.2.1:80'' @ nl, ''HTTP/1.1 302 Found'', ''Location: /next'',
      ''DNS lookup: 0ms'', ''TCP connection: 2ms'', ''TLS handshake: 0ms'',
      ''Server processing: 7ms'', ''Content transfer: 1ms'', nl @ ''Total: 11ms'']"
    by code_simp
  have c: "hop sample_ext sample_request refused_attempt used_Response =
     (Inl ''Unable to connect to host 192.0.2.1:80: connection refused'', used_Response)"
    by code_simp
  note a = fatal_keeps_log [of sample_ext sample_request
      "[ip_attempt redirect_response, reset_attempt]" used_Response ?eof reset_end "[]"
      reset_attempt ip_connected sample_wire None]
  note b = fatal_keeps_log [of sample_ext strict_request "[]" used_Response
      "''Maximum number of redirects (0) followed''" strict_end "[]"
      "ip_attempt redirect_response" strict_end]
  note d = fatal_keeps_log [of sample_ext sample_request "[]" used_Response
      "''Unable to connect to host 192.0.2.1:80: connection refused''" used_Response "[]"
      refused_attempt used_Response]
  have 1: "Log reset_end = Log used_Response
     @ trace_reported sample_ext sample_request [ip_attempt redirect_response, reset_attempt]
         used_Response"
    by (rule a [THEN conjunct1, rule_format, THEN conjunct1]) (rule v)
  have 2: "prefix (Log used_Response) (Log reset_end)"
    by (rule a [THEN conjunct1, rule_format, THEN conjunct2]) (rule v)
  have 3: "Log ip_connected = Log used_Response @ reported sample_ext sample_request reset_attempt"
    by (rule a [THEN conjunct2, THEN conjunct1, rule_format]) (rule h)
  have 4: "prefix (Log used_Response @ connected (events reset_attempt)) (Log ip_connected)"
    by (rule a [THEN conjunct2, THEN conjunct2, rule_format]) (intro conjI h ck tr)
  have 5: "Log strict_end =
     Log used_Response @ reported sample_ext strict_request (ip_attempt redirect_response)"
    by (rule b [THEN conjunct2, THEN conjunct1, rule_format]) (rule s)
  have 6: "Log used_Response =
     Log used_Response @ reported sample_ext sample_request refused_attempt"
    by (rule d [THEN conjunct2, THEN conjunct1, rule_format]) (rule c)
  from v 1 2 e h 3 re ck 4 co s 5 rs c 6 show ?thesis by (intro conjI)
qed

end
